theory Spec2Isabelle
  imports Complex_Main
begin

section \<open>Price series: correlation and alignment (src/lib/polymarket/price-history.ts)\<close>

text \<open>
  JavaScript numbers are modelled as mathematical reals (prices, probabilities, strengths)
  and as integers (timestamps in seconds); NaN and the infinities are outside the model.
  Where the source divides by zero the model has HOL's \<open>x / 0 = 0\<close>; no statement below
  depends on such a quotient.

  Double arithmetic rounds every result. In \<open>calculateCorrelation\<close> the rounding decides
  a branch: on a constant series the rounded mean can differ from the elements, the
  deviations are then not zero and the zero-variance guard does not fire. The function
  therefore takes the rounding \<open>fl\<close> as a parameter and applies it to the result of every
  operation, in the order of the source; \<open>exact\<close> is arithmetic without rounding.
  Everywhere else results are exact.
\<close>

definition exact :: "real \<Rightarrow> real" where
  "exact x = x"

record PricePoint =
  point_t :: int
  point_p :: real

text \<open>The accumulation loop of \<open>calculateCorrelation\<close>: covariance and the two variances.\<close>

definition corrLoop ::
    "(real \<Rightarrow> real) \<Rightarrow> real list \<Rightarrow> real list \<Rightarrow> real \<Rightarrow> real \<Rightarrow> nat list \<Rightarrow> real \<times> real \<times> real" where
  "corrLoop fl prices1 prices2 mean1 mean2 idxs =
     fold (\<lambda>i (covariance, variance1, variance2).
             let diff1 = fl (prices1 ! i - mean1);
                 diff2 = fl (prices2 ! i - mean2)
             in (fl (covariance + fl (diff1 * diff2)),
                 fl (variance1 + fl (diff1 * diff1)),
                 fl (variance2 + fl (diff2 * diff2))))
          idxs (0, 0, 0)"

definition calculateCorrelation :: "(real \<Rightarrow> real) \<Rightarrow> real list \<Rightarrow> real list \<Rightarrow> real" where
  "calculateCorrelation fl prices1 prices2 =
     (if length prices1 \<noteq> length prices2 \<or> length prices1 < 10 then 0
      else
        let n = length prices1;
            mean1 = fl (foldl (\<lambda>sum p. fl (sum + p)) 0 prices1 / real n);
            mean2 = fl (foldl (\<lambda>sum p. fl (sum + p)) 0 prices2 / real n)
        in case corrLoop fl prices1 prices2 mean1 mean2 [0..<n] of
             (covariance, variance1, variance2) \<Rightarrow>
               let stdDev1 = fl (sqrt (fl (variance1 / real n)));
                   stdDev2 = fl (sqrt (fl (variance2 / real n)))
               in if stdDev1 = 0 \<or> stdDev2 = 0 then 0
                  else fl (covariance / fl (fl (real n * stdDev1) * stdDev2)))"

definition TOLERANCE :: int where
  "TOLERANCE = 3600"

record Aligned =
  prices1 :: "real list"
  prices2 :: "real list"
  timestamps :: "int list"

text \<open>
  The two-pointer loop of \<open>alignPriceSeries\<close>: the arguments are the parts of the two
  sorted series from index \<open>i1\<close> and \<open>i2\<close> on, the third is the output built so far.
\<close>

fun alignLoop :: "PricePoint list \<Rightarrow> PricePoint list \<Rightarrow> Aligned \<Rightarrow> Aligned" where
  "alignLoop (a # sorted1) (b # sorted2) out =
     (let t1 = point_t a; t2 = point_t b; diff = \<bar>t1 - t2\<bar>
      in if diff \<le> TOLERANCE
         then alignLoop sorted1 sorted2
                (out\<lparr>prices1 := prices1 out @ [point_p a],
                     prices2 := prices2 out @ [point_p b],
                     timestamps := timestamps out @ [min t1 t2]\<rparr>)
         else if t1 < t2 then alignLoop sorted1 (b # sorted2) out
         else alignLoop (a # sorted1) sorted2 out)"
| "alignLoop _ _ out = out"

text \<open>\<open>Array.prototype.sort\<close> is stable, as is \<open>sort_key\<close>.\<close>

definition alignPriceSeries :: "PricePoint list \<Rightarrow> PricePoint list \<Rightarrow> Aligned" where
  "alignPriceSeries history1 history2 =
     (let sorted1 = sort_key point_t history1;
          sorted2 = sort_key point_t history2
      in alignLoop sorted1 sorted2 \<lparr>prices1 = [], prices2 = [], timestamps = []\<rparr>)"


text \<open>
  \<open>calculateImpactMagnitude\<close>: the median of the ratios of relative moves. Its result is
  stored by the validator and read nowhere.
\<close>

definition calculateImpactMagnitude :: "real list \<Rightarrow> real list \<Rightarrow> real \<Rightarrow> real" where
  "calculateImpactMagnitude pricesA pricesB threshold =
     (let impacts = concat (map (\<lambda>i.
            let changeA = (pricesA ! i - pricesA ! (i - 1)) / pricesA ! (i - 1)
            in if \<bar>changeA\<bar> \<ge> threshold
               then [((pricesB ! i - pricesB ! (i - 1)) / pricesB ! (i - 1)) / changeA]
               else []) [1..<length pricesA])
      in if impacts = [] then 0
         else sort impacts ! (length impacts div 2))"

section \<open>Data model (src/types/polymarket.ts, src/types/simulation.ts)\<close>

text \<open>
  Only the fields read by the simulation code are kept. The market's \<open>id\<close> is named
  \<open>market_id\<close>; fields of \<open>CausalLink\<close> and \<open>CorrelationData\<close> that share a name with a
  field of the candidate records carry a prefix. The free-text \<open>explanation\<close> of a link and
  the scenario's name, description and summary metadata are left out.
\<close>

record PolymarketMarket =
  market_id :: string
  outcomes :: "string list"
  outcomePrices :: "real list"
  clobTokenIds :: "string option"

datatype ConfidenceLevel = HIGH | MEDIUM | LOW

datatype ImpactLevel = high | medium | low

record CorrelationData =
  cd_marketId :: string
  cd_correlation :: real
  confidence :: real
  lagDays :: nat
  sampleSize :: nat
  cd_direction :: string

record CausalLink =
  sourceMarketId :: string
  targetMarketId :: string
  link_strength :: real
  direction :: string
  link_timelag :: string
  confidenceLevel :: ConfidenceLevel
  historicalCorrelation :: "CorrelationData option"
  llmGenerated :: bool

record SimulationNode =
  market :: PolymarketMarket
  currentProbability :: real
  predictedProbability :: real
  probabilityChange :: real
  percentChange :: real
  layer :: nat
  impactLevel :: ImpactLevel
  incomingLinks :: "CausalLink list"
  outgoingLinks :: "CausalLink list"

record SimulationGraph =
  nodes :: "SimulationNode list"
  edges :: "CausalLink list"

record PropagationParams =
  conservativeMode :: bool
  maxDepth :: real
  minCorrelation :: real
  includeLLMOnly :: bool

text \<open>The record returned by \<open>findInterestingCausalMarkets\<close>, and the validator's extension of it.\<close>

record CausalResult =
  marketId :: string
  reasoning :: string
  timelag :: string
  strength :: real
  impactDirection :: string

record ValidatedResult = CausalResult +
  correlation :: "real option"
  impactMagnitude :: "real option"
  hasHistoricalData :: bool

text \<open>
  The external collaborators. The candidate generator is called once per iteration of the
  builder's loop, the price-history provider once at the start (call \<open>0 0\<close>) and once per
  candidate; the leading numbers identify the call (loop iteration, position of the
  candidate), so that neither collaborator has to answer the same question the same way
  twice. \<open>JSON_parse\<close> gives the parsed array of token ids, or \<open>None\<close> where parsing throws or
  the value is not an array. \<open>getMarkets\<close> may throw (\<open>Inl\<close>). \<open>rounding\<close> is the rounding
  of the double arithmetic of \<open>calculateCorrelation\<close>.
\<close>

record Env =
  rounding :: "real \<Rightarrow> real"
  JSON_parse :: "string \<Rightarrow> string list option"
  findInterestingCausalMarkets ::
    "nat \<Rightarrow> PolymarketMarket \<Rightarrow> string \<Rightarrow> PolymarketMarket list \<Rightarrow> CausalResult list"
  getPriceHistory :: "nat \<Rightarrow> nat \<Rightarrow> string \<Rightarrow> PricePoint list"
  getMarketDetails :: "string \<Rightarrow> PolymarketMarket option"
  getMarkets :: "string + PolymarketMarket list"

text \<open>The arguments of \<open>createSimulationScenario\<close>.\<close>

record Args =
  triggerMarket :: PolymarketMarket
  triggerOutcome :: string
  availableMarkets :: "PolymarketMarket list"
  params :: PropagationParams

section \<open>JavaScript idioms\<close>

text \<open>\<open>xs.indexOf(x)\<close>, with \<open>None\<close> for \<open>-1\<close>.\<close>

definition indexOf :: "'a list \<Rightarrow> 'a \<Rightarrow> nat option" where
  "indexOf xs x = (if x \<in> set xs then Some (length (takeWhile (\<lambda>y. y \<noteq> x) xs)) else None)"

text \<open>\<open>xs[i]\<close>, with \<open>None\<close> for \<open>undefined\<close>.\<close>

definition elemAt :: "'a list \<Rightarrow> nat option \<Rightarrow> 'a option" where
  "elemAt xs i = (case i of None \<Rightarrow> None | Some j \<Rightarrow> if j < length xs then Some (xs ! j) else None)"

text \<open>The truthy value of an optional number: \<open>undefined\<close> and \<open>0\<close> are falsy.\<close>

definition truthy :: "real option \<Rightarrow> real option" where
  "truthy v = (case v of None \<Rightarrow> None | Some x \<Rightarrow> if x = 0 then None else Some x)"

text \<open>\<open>v || d\<close> on an optional number.\<close>

definition orElse :: "real option \<Rightarrow> real \<Rightarrow> real" where
  "orElse v d = (case truthy v of None \<Rightarrow> d | Some x \<Rightarrow> x)"

text \<open>\<open>xs.find(P)\<close> followed by a mutation of the object found.\<close>

fun updateFirst :: "('a \<Rightarrow> bool) \<Rightarrow> ('a \<Rightarrow> 'a) \<Rightarrow> 'a list \<Rightarrow> 'a list" where
  "updateFirst P f [] = []"
| "updateFirst P f (x # xs) = (if P x then f x # xs else x # updateFirst P f xs)"

section \<open>The graph builder (src/lib/simulation/causal-engine-simple.ts)\<close>

definition extractTokenId :: "Env \<Rightarrow> PolymarketMarket \<Rightarrow> string option" where
  "extractTokenId env m =
     (case clobTokenIds m of
        None \<Rightarrow> None
      | Some rawTokenIds \<Rightarrow>
          if rawTokenIds = [] \<or> rawTokenIds = ''null'' \<or> rawTokenIds = ''[]'' then None
          else (case JSON_parse env rawTokenIds of
                  Some (tokenId # _) \<Rightarrow> Some tokenId
                | _ \<Rightarrow> None))"

definition MAX_DEPTH :: nat where
  "MAX_DEPTH = 3"

definition getMaxNodesForLayer :: "nat \<Rightarrow> nat" where
  "getMaxNodesForLayer lyr =
     (if lyr = 1 then 3 else if lyr = 2 then 2 else if lyr = 3 then 1 else 0)"

definition nodeId :: "SimulationNode \<Rightarrow> string" where
  "nodeId n = market_id (market n)"

text \<open>\<open>triggerMarket.outcomePrices[triggerMarket.outcomes.indexOf(triggerOutcome)] || 0.5\<close>\<close>

definition triggerPrice :: "Args \<Rightarrow> real" where
  "triggerPrice args =
     orElse (elemAt (outcomePrices (triggerMarket args))
                (indexOf (outcomes (triggerMarket args)) (triggerOutcome args))) 0.5"

definition triggerNode :: "Args \<Rightarrow> SimulationNode" where
  "triggerNode args =
     \<lparr>market = triggerMarket args,
      currentProbability = triggerPrice args,
      predictedProbability = 1.0,
      probabilityChange = 1.0 - triggerPrice args,
      percentChange = 100,
      layer = 0,
      impactLevel = high,
      incomingLinks = [],
      outgoingLinks = []\<rparr>"

definition triggerPriceHistory :: "Env \<Rightarrow> Args \<Rightarrow> PricePoint list" where
  "triggerPriceHistory env args =
     (case extractTokenId env (triggerMarket args) of
        None \<Rightarrow> []
      | Some triggerTokenId \<Rightarrow>
          if triggerTokenId = [] then [] else getPriceHistory env 0 0 triggerTokenId)"

text \<open>The three places that push a candidate with halved strength and no historical data.\<close>

definition downgraded :: "CausalResult \<Rightarrow> ValidatedResult" where
  "downgraded result =
     \<lparr>marketId = marketId result, reasoning = reasoning result, timelag = timelag result,
      strength = strength result * 0.5, impactDirection = impactDirection result,
      correlation = None, impactMagnitude = None, hasHistoricalData = False\<rparr>"

text \<open>
  The body of the validation loop for the candidate at position \<open>j\<close> of the generator's
  answer in iteration \<open>k\<close>: \<open>None\<close> where the source pushes nothing (\<open>continue\<close>, or
  the rejection branch), otherwise the record pushed to \<open>validatedResults\<close>.
\<close>

definition validateResult ::
    "Env \<Rightarrow> Args \<Rightarrow> nat \<Rightarrow> nat \<Rightarrow> string set \<Rightarrow> CausalResult \<Rightarrow> ValidatedResult option" where
  "validateResult env args k j processed result =
     (case find (\<lambda>m. market_id m = marketId result) (availableMarkets args) of
        None \<Rightarrow> None
      | Some mkt \<Rightarrow>
          if market_id mkt \<in> processed then None
          else (case extractTokenId env mkt of
            None \<Rightarrow> Some (downgraded result)
          | Some marketTokenId \<Rightarrow>
              if marketTokenId = [] \<or> length (triggerPriceHistory env args) < 10
              then Some (downgraded result)
              else
                let marketPriceHistory = getPriceHistory env k j marketTokenId
                in if length marketPriceHistory < 10 then Some (downgraded result)
                   else
                     let aligned = alignPriceSeries (triggerPriceHistory env args) marketPriceHistory
                     in if length (prices1 aligned) < 10 then Some (downgraded result)
                        else
                          let corr = calculateCorrelation (rounding env) (prices1 aligned) (prices2 aligned);
                              impact = calculateImpactMagnitude (prices1 aligned) (prices2 aligned) 0.05;
                              hasStrongCorrelation = (\<bar>corr\<bar> \<ge> 0.20);
                              hasHighConfidence = (strength result \<ge> 0.5)
                          in if hasStrongCorrelation \<and> hasHighConfidence
                             then Some
                               \<lparr>marketId = marketId result, reasoning = reasoning result,
                                timelag = timelag result,
                                strength = (\<bar>corr\<bar> + strength result) / 2,
                                impactDirection = impactDirection result,
                                correlation = Some corr, impactMagnitude = Some impact,
                                hasHistoricalData = True\<rparr>
                             else None))"

text \<open>\<open>result.hasHistoricalData && result.correlation\<close>\<close>

definition historical :: "ValidatedResult \<Rightarrow> real option" where
  "historical result = (if hasHistoricalData result then truthy (correlation result) else None)"

text \<open>\<open>r.correlation || r.strength\<close>, the key of the descending sort.\<close>

definition sortKey :: "ValidatedResult \<Rightarrow> real" where
  "sortKey r = orElse (correlation r) (strength r)"

text \<open>
  The change magnitude, the confidence level and the direction applied to a target, as
  the two branches of the source compute them. Both branches take the direction from the
  candidate's claimed \<open>impactDirection\<close>; the source's \<open>correlationDirection\<close> is
  computed and used nowhere.
\<close>

definition changeMagnitude :: "Args \<Rightarrow> ValidatedResult \<Rightarrow> real" where
  "changeMagnitude args result =
     (case historical result of
        Some corr \<Rightarrow>
          let triggerShock = 1.0 - triggerPrice args
          in \<bar>corr\<bar> * triggerShock * 0.5
      | None \<Rightarrow> strength result * 0.10)"

definition confidenceOf :: "ValidatedResult \<Rightarrow> ConfidenceLevel" where
  "confidenceOf result =
     (case historical result of
        Some corr \<Rightarrow> if \<bar>corr\<bar> > 0.6 then HIGH else if \<bar>corr\<bar> > 0.3 then MEDIUM else LOW
      | None \<Rightarrow> LOW)"

definition directionOf :: "ValidatedResult \<Rightarrow> real" where
  "directionOf result =
     (case historical result of
        Some corr \<Rightarrow> if impactDirection result = ''increase'' then 1 else -1
      | None \<Rightarrow> if impactDirection result = ''increase'' then 1 else -1)"

definition impactLevelOf :: "real \<Rightarrow> ImpactLevel" where
  "impactLevelOf percent =
     (let absChange = \<bar>percent\<bar>
      in if absChange > 30 then high else if absChange > 10 then medium else low)"

definition edgeFor :: "Env \<Rightarrow> Args \<Rightarrow> PolymarketMarket \<Rightarrow> PolymarketMarket \<Rightarrow> ValidatedResult \<Rightarrow> CausalLink" where
  "edgeFor env args currentMarket mkt result =
     \<lparr>sourceMarketId = market_id currentMarket,
      targetMarketId = market_id mkt,
      link_strength = strength result,
      direction = (case historical result of
                     Some corr \<Rightarrow> if corr > 0 then ''increase'' else ''decrease''
                   | None \<Rightarrow> impactDirection result),
      link_timelag = timelag result,
      confidenceLevel = confidenceOf result,
      historicalCorrelation =
        (case historical result of
           Some corr \<Rightarrow> Some
             \<lparr>cd_marketId = market_id mkt, cd_correlation = corr, confidence = \<bar>corr\<bar>,
              lagDays = 0, sampleSize = length (triggerPriceHistory env args),
              cd_direction = (if corr > 0 then ''positive'' else ''negative'')\<rparr>
         | None \<Rightarrow> None),
      llmGenerated = (\<not> hasHistoricalData result)\<rparr>"

definition nodeFor :: "Env \<Rightarrow> Args \<Rightarrow> PolymarketMarket \<Rightarrow> nat \<Rightarrow> PolymarketMarket \<Rightarrow> ValidatedResult \<Rightarrow> SimulationNode" where
  "nodeFor env args currentMarket currentLayer mkt result =
     (let currentProb = orElse (elemAt (outcomePrices mkt) (Some 0)) 0.5;
          predictedProb0 = currentProb + directionOf result * changeMagnitude args result;
          predictedProb = max 0.01 (min 0.99 predictedProb0);
          probChange = predictedProb - currentProb;
          percent = (probChange / currentProb) * 100
      in \<lparr>market = mkt,
          currentProbability = currentProb,
          predictedProbability = predictedProb,
          probabilityChange = probChange,
          percentChange = percent,
          layer = currentLayer + 1,
          impactLevel = impactLevelOf percent,
          incomingLinks = [edgeFor env args currentMarket mkt result],
          outgoingLinks = []\<rparr>)"

record BuildState = SimulationGraph +
  processedMarkets :: "string set"
  marketsToProcess :: "(PolymarketMarket \<times> nat) list"

text \<open>The body of the loop over \<open>sortedResults\<close>.\<close>

definition addResult ::
    "Env \<Rightarrow> Args \<Rightarrow> PolymarketMarket \<Rightarrow> nat \<Rightarrow> ValidatedResult \<Rightarrow> BuildState \<Rightarrow> BuildState" where
  "addResult env args currentMarket currentLayer result st =
     (case find (\<lambda>m. market_id m = marketId result) (availableMarkets args) of
        None \<Rightarrow> st
      | Some mkt \<Rightarrow>
          if market_id mkt \<in> processedMarkets st then st
          else
            let node = nodeFor env args currentMarket currentLayer mkt result;
                edge = edgeFor env args currentMarket mkt result
            in st\<lparr>nodes :=
                     updateFirst (\<lambda>n. nodeId n = market_id currentMarket)
                       (\<lambda>n. n\<lparr>outgoingLinks := outgoingLinks n @ [edge]\<rparr>)
                       (nodes st @ [node]),
                   edges := edges st @ [edge],
                   processedMarkets := insert (market_id mkt) (processedMarkets st),
                   marketsToProcess :=
                     (if strength result > 0.5 \<and> real (currentLayer + 1) < maxDepth (params args)
                      then marketsToProcess st @ [(mkt, currentLayer + 1)]
                      else marketsToProcess st)\<rparr>)"

text \<open>
  One iteration of the \<open>while\<close> loop, after the head of the queue has been taken off:
  ask for candidates, validate them, keep the data-backed ones, sort, truncate, add.
\<close>

definition causalResults ::
    "Env \<Rightarrow> Args \<Rightarrow> nat \<Rightarrow> PolymarketMarket \<Rightarrow> string set \<Rightarrow> CausalResult list" where
  "causalResults env args k currentMarket processed =
     findInterestingCausalMarkets env k currentMarket (triggerOutcome args)
       (filter (\<lambda>m. market_id m \<notin> processed) (availableMarkets args))"

definition validatedResults ::
    "Env \<Rightarrow> Args \<Rightarrow> nat \<Rightarrow> PolymarketMarket \<Rightarrow> string set \<Rightarrow> ValidatedResult list" where
  "validatedResults env args k currentMarket processed =
     List.map_filter (\<lambda>(j, result). validateResult env args k j processed result)
       (enumerate 0 (causalResults env args k currentMarket processed))"

definition sortedResults ::
    "Env \<Rightarrow> Args \<Rightarrow> nat \<Rightarrow> PolymarketMarket \<Rightarrow> nat \<Rightarrow> string set \<Rightarrow> ValidatedResult list" where
  "sortedResults env args k currentMarket currentLayer processed =
     (let maxForThisLayer = getMaxNodesForLayer (currentLayer + 1)
      in take maxForThisLayer
           (sort_key (\<lambda>r. - sortKey r)
              (filter hasHistoricalData (validatedResults env args k currentMarket processed))))"

definition expandMarket ::
    "Env \<Rightarrow> Args \<Rightarrow> nat \<Rightarrow> PolymarketMarket \<Rightarrow> nat \<Rightarrow> BuildState \<Rightarrow> BuildState" where
  "expandMarket env args k currentMarket currentLayer st =
     fold (addResult env args currentMarket currentLayer)
       (sortedResults env args k currentMarket currentLayer (processedMarkets st)) st"

text \<open>
  The measure that shows the loop to terminate: an entry at layer \<open>l\<close> weighs
  \<open>4 ^ (3 - l)\<close>, and expanding it adds at most three entries at layer \<open>l + 1\<close>.
\<close>

definition queueWeight :: "(PolymarketMarket \<times> nat) list \<Rightarrow> nat" where
  "queueWeight q = sum_list (map (\<lambda>(m, l). 4 ^ (3 - l)) q)"

function buildLoop :: "Env \<Rightarrow> Args \<Rightarrow> nat \<Rightarrow> BuildState \<Rightarrow> BuildState" where
  "buildLoop env args k st =
     (case marketsToProcess st of
        [] \<Rightarrow> st
      | (currentMarket, currentLayer) # rest \<Rightarrow>
          if currentLayer < MAX_DEPTH
          then buildLoop env args (Suc k)
                 (expandMarket env args k currentMarket currentLayer (st\<lparr>marketsToProcess := rest\<rparr>))
          else st)"
  by pat_completeness auto

definition initialState :: "Args \<Rightarrow> BuildState" where
  "initialState args =
     \<lparr>nodes = [triggerNode args], edges = [],
      processedMarkets = {market_id (triggerMarket args)},
      marketsToProcess = [(triggerMarket args, 0)]\<rparr>"

definition createSimulationScenario :: "Env \<Rightarrow> Args \<Rightarrow> SimulationGraph" where
  "createSimulationScenario env args =
     (let st = buildLoop env args 1 (initialState args)
      in \<lparr>nodes = nodes st, edges = edges st\<rparr>)"

section \<open>The API route (src/app/api/simulation/run/route.ts)\<close>

record RequestParams =
  rp_conservativeMode :: "bool option"
  rp_maxDepth :: "real option"
  rp_minCorrelation :: "real option"
  rp_includeLLMOnly :: "bool option"

record RequestBody =
  body_marketId :: "string option"
  body_outcome :: "string option"
  body_params :: "RequestParams option"

datatype ApiError =
    MissingRequiredFields
  | TriggerMarketNotFound
  | InvalidOutcome
  | TooFewMarkets nat
  | FailedToRunSimulation

text \<open>An error response carries its HTTP status.\<close>

datatype Response = ErrorResponse ApiError nat | SuccessResponse SimulationGraph

text \<open>\<open>!s\<close> on an optional string: \<open>undefined\<close> and the empty string are falsy.\<close>

definition falsy :: "string option \<Rightarrow> bool" where
  "falsy s = (s = None \<or> s = Some [])"

text \<open>\<open>params?.field ?? d\<close>\<close>

definition nullish :: "RequestParams option \<Rightarrow> (RequestParams \<Rightarrow> 'a option) \<Rightarrow> 'a \<Rightarrow> 'a" where
  "nullish ps field d = (case ps of None \<Rightarrow> d | Some q \<Rightarrow> (case field q of None \<Rightarrow> d | Some v \<Rightarrow> v))"

text \<open>
  The request is \<open>None\<close> where \<open>request.json()\<close> throws; that and a throwing
  \<open>getMarkets\<close> are the exceptions the handler's \<open>catch\<close> turns into a 500.
\<close>

definition POST :: "Env \<Rightarrow> RequestBody option \<Rightarrow> Response" where
  "POST env request =
     (case request of
        None \<Rightarrow> ErrorResponse FailedToRunSimulation 500
      | Some body \<Rightarrow>
          if falsy (body_marketId body) \<or> falsy (body_outcome body)
          then ErrorResponse MissingRequiredFields 400
          else
            (case getMarketDetails env (the (body_marketId body)) of
              None \<Rightarrow> ErrorResponse TriggerMarketNotFound 404
            | Some trigger \<Rightarrow>
                if the (body_outcome body) \<notin> set (outcomes trigger)
                then ErrorResponse InvalidOutcome 400
                else
                  (case getMarkets env of
                    Inl _ \<Rightarrow> ErrorResponse FailedToRunSimulation 500
                  | Inr available \<Rightarrow>
                      if length available < 100
                      then ErrorResponse (TooFewMarkets (length available)) 500
                      else
                        let propagationParams =
                              \<lparr>conservativeMode = nullish (body_params body) rp_conservativeMode False,
                               maxDepth = nullish (body_params body) rp_maxDepth 3,
                               minCorrelation = nullish (body_params body) rp_minCorrelation 0.3,
                               includeLLMOnly = nullish (body_params body) rp_includeLLMOnly True\<rparr>
                        in SuccessResponse
                             (createSimulationScenario env
                                \<lparr>triggerMarket = trigger,
                                 triggerOutcome = the (body_outcome body),
                                 availableMarkets = available,
                                 params = propagationParams\<rparr>))))"

section \<open>Propagation and loop detection (src/lib/simulation/propagation.ts)\<close>

definition confidenceWeight :: "ConfidenceLevel \<Rightarrow> real" where
  "confidenceWeight c = (if c = HIGH then 1.0 else if c = MEDIUM then 0.7 else 0.4)"

text \<open>
  The inner loop over a node's incoming links: the pair is
  (\<open>totalInfluence\<close>, \<open>totalWeight\<close>). The nodes are read in their current state.
\<close>

definition addInfluence :: "SimulationNode list \<Rightarrow> CausalLink \<Rightarrow> real \<times> real \<Rightarrow> real \<times> real" where
  "addInfluence sortedNodes link acc =
     (case acc of (totalInfluence, totalWeight) \<Rightarrow>
        (case find (\<lambda>n. nodeId n = sourceMarketId link) sortedNodes of
           None \<Rightarrow> (totalInfluence, totalWeight)
         | Some sourceNode \<Rightarrow>
             let sourceShock = predictedProbability sourceNode - currentProbability sourceNode;
                 dir = (if direction link = ''increase'' then 1 else -1);
                 influence = sourceShock * link_strength link * dir;
                 w = confidenceWeight (confidenceLevel link)
             in (totalInfluence + influence * w, totalWeight + w)))"

text \<open>
  The body of the loop over \<open>layerNodes\<close>. The array holds references to the node objects,
  which are mutated in place: the node is identified by its position \<open>i\<close> in
  \<open>sortedNodes\<close>.
\<close>

definition propagateNode :: "CausalLink list \<Rightarrow> nat \<Rightarrow> SimulationNode list \<Rightarrow> SimulationNode list" where
  "propagateNode es i sortedNodes =
     (let node = sortedNodes ! i;
          incoming = filter (\<lambda>e. targetMarketId e = nodeId node) es
      in if length incoming = 0 then sortedNodes
         else
           case fold (addInfluence sortedNodes) incoming (0, 0) of
             (totalInfluence, totalWeight) \<Rightarrow>
               if totalWeight > 0
               then
                 let avgInfluence = totalInfluence / totalWeight;
                     newProbability = max 0.01 (min 0.99 (currentProbability node + avgInfluence));
                     change = newProbability - currentProbability node;
                     percent = (change / currentProbability node) * 100
                 in sortedNodes[i := node\<lparr>predictedProbability := newProbability,
                                         probabilityChange := change,
                                         percentChange := percent,
                                         impactLevel := impactLevelOf percent\<rparr>]
               else sortedNodes)"

definition propagateLayer :: "CausalLink list \<Rightarrow> nat \<Rightarrow> SimulationNode list \<Rightarrow> SimulationNode list" where
  "propagateLayer es lyr sortedNodes =
     (let layerNodes = filter (\<lambda>i. layer (sortedNodes ! i) = lyr) [0..<length sortedNodes]
      in fold (propagateNode es) layerNodes sortedNodes)"

text \<open>\<open>Math.max\<close> over no layers is \<open>-Infinity\<close>: the loop over the layers does not run.\<close>

definition propagateProbabilities :: "SimulationNode list \<Rightarrow> CausalLink list \<Rightarrow> SimulationNode list" where
  "propagateProbabilities ns es =
     (let sortedNodes = sort_key layer ns;
          maxLayer = foldr max (map layer sortedNodes) 0
      in fold (propagateLayer es) [1..<Suc maxLayer] sortedNodes)"

record DfsState =
  loops :: "string list list"
  visited :: "string set"
  recursionStack :: "string set"

text \<open>
  The depth-first search of \<open>detectFeedbackLoops\<close>. The first argument bounds the depth of
  the recursion; \<open>None\<close> means that the bound was reached. \<open>dfs\<close> is the source's
  \<open>dfs\<close>, \<open>dfsOutgoing\<close> its loop over the outgoing edges, \<open>dfsRoots\<close> the loop that
  starts a search from each node not yet visited.
\<close>

fun dfs :: "nat \<Rightarrow> CausalLink list \<Rightarrow> string \<Rightarrow> string list \<Rightarrow> DfsState \<Rightarrow> DfsState option"
and dfsOutgoing :: "nat \<Rightarrow> CausalLink list \<Rightarrow> string list \<Rightarrow> CausalLink list \<Rightarrow> DfsState \<Rightarrow> DfsState option"
where
  "dfs 0 es ident path st = None"
| "dfs (Suc fuel) es ident path st =
     (let st1 = st\<lparr>visited := insert ident (visited st),
                   recursionStack := insert ident (recursionStack st)\<rparr>;
          path1 = path @ [ident];
          outgoing = filter (\<lambda>e. sourceMarketId e = ident) es
      in case dfsOutgoing fuel es path1 outgoing st1 of
           None \<Rightarrow> None
         | Some st2 \<Rightarrow> Some (st2\<lparr>recursionStack := recursionStack st2 - {ident}\<rparr>))"
| "dfsOutgoing fuel es path [] st = Some st"
| "dfsOutgoing fuel es path (edge # outgoing) st =
     (let targetId = targetMarketId edge
      in if targetId \<notin> visited st
         then (case dfs fuel es targetId path st of
                 None \<Rightarrow> None
               | Some st1 \<Rightarrow> dfsOutgoing fuel es path outgoing st1)
         else if targetId \<in> recursionStack st
         then (case indexOf path targetId of
                 Some loopStart \<Rightarrow>
                   dfsOutgoing fuel es path outgoing (st\<lparr>loops := loops st @ [drop loopStart path]\<rparr>)
               | None \<Rightarrow> dfsOutgoing fuel es path outgoing st)
         else dfsOutgoing fuel es path outgoing st)"

fun dfsRoots :: "nat \<Rightarrow> CausalLink list \<Rightarrow> SimulationNode list \<Rightarrow> DfsState \<Rightarrow> DfsState option" where
  "dfsRoots fuel es [] st = Some st"
| "dfsRoots fuel es (node # rest) st =
     (if nodeId node \<notin> visited st
      then (case dfs fuel es (nodeId node) [] st of
              None \<Rightarrow> None
            | Some st1 \<Rightarrow> dfsRoots fuel es rest st1)
      else dfsRoots fuel es rest st)"

definition detectFeedbackLoops :: "nat \<Rightarrow> SimulationNode list \<Rightarrow> CausalLink list \<Rightarrow> string list list option" where
  "detectFeedbackLoops fuel ns es =
     map_option loops (dfsRoots fuel es ns \<lparr>loops = [], visited = {}, recursionStack = {}\<rparr>)"

section \<open>Auxiliary notions used in the statements and proofs\<close>

text \<open>
  The relation between the sorted input \<open>s\<close> of \<open>propagateProbabilities\<close> and a later
  state \<open>st\<close> of the array: a node is either untouched, or it lies above layer 0, has an
  incoming edge and carries a clamped predicted probability.
\<close>

definition propagated :: "CausalLink list \<Rightarrow> SimulationNode list \<Rightarrow> SimulationNode list \<Rightarrow> bool" where
  "propagated es s st \<longleftrightarrow>
     length st = length s \<and>
     (\<forall>i<length s. market (st ! i) = market (s ! i) \<and> layer (st ! i) = layer (s ! i) \<and>
        (st ! i = s ! i \<or>
         (layer (s ! i) \<noteq> 0 \<and> (\<exists>e\<in>set es. targetMarketId e = nodeId (s ! i)) \<and>
          0.01 \<le> predictedProbability (st ! i) \<and> predictedProbability (st ! i) \<le> 0.99)))"

text \<open>
  The skeleton of the builder's state: the (market id, layer) pairs of the nodes, the
  (source, target) pairs of the edges and the (market id, layer) pairs of the queue.
\<close>

definition skel :: "SimulationNode list \<Rightarrow> (string \<times> nat) list" where
  "skel ns = map (\<lambda>n. (nodeId n, layer n)) ns"

definition ends :: "CausalLink list \<Rightarrow> (string \<times> string) list" where
  "ends es = map (\<lambda>e. (sourceMarketId e, targetMarketId e)) es"

definition queueIds :: "(PolymarketMarket \<times> nat) list \<Rightarrow> (string \<times> nat) list" where
  "queueIds q = map (\<lambda>(m, l). (market_id m, l)) q"

text \<open>
  The children of \<open>parent\<close> in layer \<open>lyr\<close>: the nodes of that layer that an edge from
  \<open>parent\<close> targets; \<open>kids\<close> is the same on the skeleton.
\<close>

definition childrenAt :: "SimulationNode list \<Rightarrow> CausalLink list \<Rightarrow> string \<Rightarrow> nat \<Rightarrow> SimulationNode list" where
  "childrenAt ns es parent lyr =
     filter (\<lambda>n. layer n = lyr \<and> (\<exists>e\<in>set es. sourceMarketId e = parent \<and> targetMarketId e = nodeId n)) ns"

definition kids :: "(string \<times> nat) list \<Rightarrow> (string \<times> string) list \<Rightarrow> string \<Rightarrow> nat \<Rightarrow> (string \<times> nat) list" where
  "kids sk E p lyr = filter (\<lambda>(x, l). l = lyr \<and> (p, x) \<in> set E) sk"

text \<open>
  The invariant of the builder's loop, on the skeleton. Node ids are distinct and
  processed; the queue holds nodes, each once, none of which has an outgoing edge yet;
  every edge runs from a node to a node one layer below it; layers are bounded, only the
  trigger is at layer 0 and every layer-1 node hangs off the trigger; \<open>bnd\<close> bounds the
  number of children per parent and layer.
\<close>

definition shapeInv ::
    "string \<Rightarrow> real \<Rightarrow> (string \<Rightarrow> nat \<Rightarrow> nat) \<Rightarrow> (string \<times> nat) list \<Rightarrow> (string \<times> string) list
       \<Rightarrow> string set \<Rightarrow> (string \<times> nat) list \<Rightarrow> bool" where
  "shapeInv tid md bnd sk E P Q \<longleftrightarrow>
     distinct (map fst sk) \<and> fst ` set sk \<subseteq> P \<and> set Q \<subseteq> set sk \<and> distinct (map fst Q) \<and>
     (\<forall>a b. (a, b) \<in> set E \<longrightarrow> (\<exists>la. (a, la) \<in> set sk \<and> (b, Suc la) \<in> set sk)) \<and>
     (\<forall>x l. (x, l) \<in> set sk \<longrightarrow>
        l \<le> 3 \<and> (l = 0 \<or> (0 < md \<longrightarrow> real l < md + 1)) \<and>
        (l = 1 \<longrightarrow> (tid, x) \<in> set E) \<and> (l = 0 \<longrightarrow> x = tid)) \<and>
     (\<forall>x l. (x, l) \<in> set Q \<longrightarrow> (\<forall>b. (x, b) \<notin> set E) \<and> (l = 0 \<or> real l < md)) \<and>
     (\<forall>p lyr. length (kids sk E p lyr) \<le> bnd p lyr)"

text \<open>While the market \<open>c\<close> of layer \<open>l\<close> is being expanded, it has at most \<open>j\<close> children.\<close>

definition stepBound :: "string \<Rightarrow> nat \<Rightarrow> nat \<Rightarrow> string \<Rightarrow> nat \<Rightarrow> nat" where
  "stepBound c l j p lyr = (if p = c \<and> lyr = Suc l then j else getMaxNodesForLayer lyr)"

definition stateInv :: "string \<Rightarrow> real \<Rightarrow> (string \<Rightarrow> nat \<Rightarrow> nat) \<Rightarrow> BuildState \<Rightarrow> bool" where
  "stateInv tid md bnd st \<longleftrightarrow>
     shapeInv tid md bnd (skel (nodes st)) (ends (edges st)) (processedMarkets st)
       (queueIds (marketsToProcess st))"

definition expanding :: "string \<Rightarrow> real \<Rightarrow> string \<Rightarrow> nat \<Rightarrow> nat \<Rightarrow> BuildState \<Rightarrow> bool" where
  "expanding tid md c l j st \<longleftrightarrow>
     stateInv tid md (stepBound c l j) st \<and> (c, l) \<in> set (skel (nodes st)) \<and>
     c \<notin> fst ` set (queueIds (marketsToProcess st)) \<and> l < 3 \<and> (l = 0 \<or> real l < md)"

abbreviation cap :: "string \<Rightarrow> nat \<Rightarrow> nat" where
  "cap \<equiv> (\<lambda>p lyr. getMaxNodesForLayer lyr)"

text \<open>The trigger node stays at the head of the node list; only its outgoing links grow.\<close>

definition triggerFirst :: "Args \<Rightarrow> SimulationNode list \<Rightarrow> bool" where
  "triggerFirst args ns \<longleftrightarrow>
     (case ns of [] \<Rightarrow> False | n # _ \<Rightarrow> n\<lparr>outgoingLinks := []\<rparr> = triggerNode args)"

text \<open>
  The correlation the validator computes for a candidate: that of the trigger's price
  history aligned with the history fetched for the candidate's token.
\<close>

definition alignedCorrelation :: "Env \<Rightarrow> Args \<Rightarrow> nat \<Rightarrow> nat \<Rightarrow> string \<Rightarrow> real" where
  "alignedCorrelation env args k j tokenId =
     (let aligned = alignPriceSeries (triggerPriceHistory env args) (getPriceHistory env k j tokenId)
      in calculateCorrelation (rounding env) (prices1 aligned) (prices2 aligned))"

text \<open>
  The expansions the loop performs, in order: the number of the iteration, the market
  taken off the queue, its layer and the set of processed markets at that moment.
  \<open>expansions\<close> follows \<open>buildLoop\<close> step by step; \<open>calls\<close> is the list for the whole run. Each
  entry stands for one call of the generator, answered by \<open>causalResults\<close>.
\<close>

function expansions ::
    "Env \<Rightarrow> Args \<Rightarrow> nat \<Rightarrow> BuildState \<Rightarrow> (nat \<times> PolymarketMarket \<times> nat \<times> string set) list" where
  "expansions env args k st =
     (case marketsToProcess st of
        [] \<Rightarrow> []
      | (currentMarket, currentLayer) # rest \<Rightarrow>
          if currentLayer < MAX_DEPTH
          then (k, currentMarket, currentLayer, processedMarkets st) #
               expansions env args (Suc k)
                 (expandMarket env args k currentMarket currentLayer (st\<lparr>marketsToProcess := rest\<rparr>))
          else [])"
  by pat_completeness auto

definition calls :: "Env \<Rightarrow> Args \<Rightarrow> (nat \<times> PolymarketMarket \<times> nat \<times> string set) list" where
  "calls env args = expansions env args 1 (initialState args)"

text \<open>
  \<open>r\<close> is the \<open>j\<close>-th candidate the generator returned in iteration \<open>k\<close> of the run, in which
  the market \<open>cm\<close> of layer \<open>l\<close> was expanded with \<open>processed\<close> the markets processed so far.
\<close>

definition proposed ::
    "Env \<Rightarrow> Args \<Rightarrow> nat \<Rightarrow> nat \<Rightarrow> PolymarketMarket \<Rightarrow> nat \<Rightarrow> string set \<Rightarrow> CausalResult \<Rightarrow> bool" where
  "proposed env args k j cm l processed r \<longleftrightarrow>
     (k, cm, l, processed) \<in> set (calls env args) \<and>
     j < length (causalResults env args k cm processed) \<and>
     causalResults env args k cm processed ! j = r"

text \<open>
  The candidate \<open>r\<close>, proposed by the generator during the run for the market \<open>cm\<close> of
  layer \<open>l\<close>, was validated as \<open>v\<close> with historical correlation \<open>c\<close> and survived the
  filter, the sort and the truncation of that iteration; and the invariant that every
  edge and every node above layer 0 was built from such a candidate.
\<close>

definition accepted ::
    "Env \<Rightarrow> Args \<Rightarrow> PolymarketMarket \<Rightarrow> nat \<Rightarrow> CausalResult \<Rightarrow> ValidatedResult \<Rightarrow> real \<Rightarrow> bool" where
  "accepted env args cm l r v c \<longleftrightarrow>
     (\<exists>k j processed mkt tokenId.
        proposed env args k j cm l processed r \<and>
        validateResult env args k j processed r = Some v \<and>
        v \<in> set (sortedResults env args k cm l processed) \<and>
        find (\<lambda>m. market_id m = marketId r) (availableMarkets args) = Some mkt \<and>
        extractTokenId env mkt = Some tokenId \<and>
        c = alignedCorrelation env args k j tokenId) \<and>
     hasHistoricalData v \<and> correlation v = Some c"

definition provenance :: "Env \<Rightarrow> Args \<Rightarrow> SimulationNode list \<Rightarrow> CausalLink list \<Rightarrow> bool" where
  "provenance env args ns es \<longleftrightarrow>
     (\<forall>e\<in>set es. \<exists>cm l mkt r v c.
        accepted env args cm l r v c \<and>
        find (\<lambda>m. market_id m = marketId v) (availableMarkets args) = Some mkt \<and>
        e = edgeFor env args cm mkt v) \<and>
     (\<forall>n\<in>set ns. layer n = 0 \<or> (\<exists>cm l mkt r v c.
        accepted env args cm l r v c \<and>
        find (\<lambda>m. market_id m = marketId v) (availableMarkets args) = Some mkt \<and>
        n\<lparr>outgoingLinks := []\<rparr> = nodeFor env args cm l mkt v \<and>
        edgeFor env args cm mkt v \<in> set es))"

text \<open>The layer of the node with a given market id.\<close>

definition layerOf :: "SimulationNode list \<Rightarrow> string \<Rightarrow> nat" where
  "layerOf ns x = (case find (\<lambda>n. nodeId n = x) ns of Some n \<Rightarrow> layer n | None \<Rightarrow> 0)"

section \<open>A concrete run, used to instantiate the theorems\<close>

text \<open>
  The trigger market \<open>t\<close> (outcome Yes at 0.20) and three further markets: \<open>a\<close>, whose
  price history moves with the trigger's; \<open>b\<close>, which has no price-series token; \<open>c\<close>, whose
  history is uncorrelated with the trigger's. The generator proposes all three for the
  trigger and nothing for any other market.
\<close>

definition demoT :: PolymarketMarket where
  "demoT = \<lparr>market_id = ''t'', outcomes = [''Yes'', ''No''], outcomePrices = [1/5, 4/5],
            clobTokenIds = Some ''[101]''\<rparr>"

definition demoA :: PolymarketMarket where
  "demoA = \<lparr>market_id = ''a'', outcomes = [''Yes'', ''No''], outcomePrices = [1/2, 1/2],
            clobTokenIds = Some ''[102]''\<rparr>"

definition demoB :: PolymarketMarket where
  "demoB = \<lparr>market_id = ''b'', outcomes = [''Yes'', ''No''], outcomePrices = [3/10, 7/10],
            clobTokenIds = None\<rparr>"

definition demoC :: PolymarketMarket where
  "demoC = \<lparr>market_id = ''c'', outcomes = [''Yes'', ''No''], outcomePrices = [2/5, 3/5],
            clobTokenIds = Some ''[103]''\<rparr>"

definition demoSeries :: "PricePoint list" where
  "demoSeries =
     [\<lparr>point_t = 0, point_p = 1/4\<rparr>, \<lparr>point_t = 7200, point_p = 3/4\<rparr>,
      \<lparr>point_t = 14400, point_p = 1/4\<rparr>, \<lparr>point_t = 21600, point_p = 3/4\<rparr>,
      \<lparr>point_t = 28800, point_p = 1/4\<rparr>, \<lparr>point_t = 36000, point_p = 3/4\<rparr>,
      \<lparr>point_t = 43200, point_p = 1/4\<rparr>, \<lparr>point_t = 50400, point_p = 3/4\<rparr>,
      \<lparr>point_t = 57600, point_p = 1/4\<rparr>, \<lparr>point_t = 64800, point_p = 3/4\<rparr>]"

definition demoSeriesC :: "PricePoint list" where
  "demoSeriesC =
     [\<lparr>point_t = 0, point_p = 1/4\<rparr>, \<lparr>point_t = 7200, point_p = 1/4\<rparr>,
      \<lparr>point_t = 14400, point_p = 3/4\<rparr>, \<lparr>point_t = 21600, point_p = 3/4\<rparr>,
      \<lparr>point_t = 28800, point_p = 1/4\<rparr>, \<lparr>point_t = 36000, point_p = 1/4\<rparr>,
      \<lparr>point_t = 43200, point_p = 3/4\<rparr>, \<lparr>point_t = 50400, point_p = 3/4\<rparr>,
      \<lparr>point_t = 57600, point_p = 1/2\<rparr>, \<lparr>point_t = 64800, point_p = 1/2\<rparr>]"

definition demoCandA :: CausalResult where
  "demoCandA = \<lparr>marketId = ''a'', reasoning = ''r'', timelag = ''days'', strength = 3/5,
                impactDirection = ''decrease''\<rparr>"

definition demoCandB :: CausalResult where
  "demoCandB = \<lparr>marketId = ''b'', reasoning = ''r'', timelag = ''days'', strength = 4/5,
                impactDirection = ''increase''\<rparr>"

definition demoCandC :: CausalResult where
  "demoCandC = \<lparr>marketId = ''c'', reasoning = ''r'', timelag = ''days'', strength = 9/10,
                impactDirection = ''increase''\<rparr>"

definition demoCandidates :: "CausalResult list" where
  "demoCandidates = [demoCandA, demoCandB, demoCandC]"

definition demoEnv :: Env where
  "demoEnv =
     \<lparr>rounding = exact,
      JSON_parse = (\<lambda>raw. if raw = ''[101]'' then Some [''101'']
                          else if raw = ''[102]'' then Some [''102'']
                          else if raw = ''[103]'' then Some [''103''] else None),
      findInterestingCausalMarkets =
        (\<lambda>k m outcome pool. if market_id m = ''t'' then demoCandidates else []),
      getPriceHistory =
        (\<lambda>k j token. if token = ''101'' \<or> token = ''102'' then demoSeries
                      else if token = ''103'' then demoSeriesC else []),
      getMarketDetails = (\<lambda>i. if i = ''t'' then Some demoT else None),
      getMarkets = Inr []\<rparr>"

definition demoArgs :: Args where
  "demoArgs =
     \<lparr>triggerMarket = demoT, triggerOutcome = ''Yes'',
      availableMarkets = [demoA, demoB, demoC],
      params = \<lparr>conservativeMode = False, maxDepth = 3, minCorrelation = 3/10,
                includeLLMOnly = True\<rparr>\<rparr>"

text \<open>The prices of the two histories, and the graph the run produces.\<close>

definition demoPrices :: "real list" where
  "demoPrices = [1/4, 3/4, 1/4, 3/4, 1/4, 3/4, 1/4, 3/4, 1/4, 3/4]"

definition demoPricesC :: "real list" where
  "demoPricesC = [1/4, 1/4, 3/4, 3/4, 1/4, 1/4, 3/4, 3/4, 1/2, 1/2]"

definition demoEdge :: CausalLink where
  "demoEdge =
     \<lparr>sourceMarketId = ''t'', targetMarketId = ''a'', link_strength = 4/5,
      direction = ''increase'', link_timelag = ''days'', confidenceLevel = HIGH,
      historicalCorrelation = Some
        \<lparr>cd_marketId = ''a'', cd_correlation = 1, confidence = 1, lagDays = 0,
         sampleSize = 10, cd_direction = ''positive''\<rparr>,
      llmGenerated = False\<rparr>"

definition demoValidatedA :: ValidatedResult where
  "demoValidatedA =
     \<lparr>marketId = ''a'', reasoning = ''r'', timelag = ''days'', strength = 4/5,
      impactDirection = ''decrease'', correlation = Some 1,
      impactMagnitude = Some (calculateImpactMagnitude demoPrices demoPrices 0.05),
      hasHistoricalData = True\<rparr>"

definition demoNodeT :: SimulationNode where
  "demoNodeT =
     \<lparr>market = demoT, currentProbability = 1/5, predictedProbability = 1,
      probabilityChange = 4/5, percentChange = 100, layer = 0, impactLevel = high,
      incomingLinks = [], outgoingLinks = [demoEdge]\<rparr>"

definition demoNodeA :: SimulationNode where
  "demoNodeA =
     \<lparr>market = demoA, currentProbability = 1/2, predictedProbability = 1/10,
      probabilityChange = - (2/5), percentChange = - 80, layer = 1, impactLevel = high,
      incomingLinks = [demoEdge], outgoingLinks = []\<rparr>"

definition demoGraph :: SimulationGraph where
  "demoGraph = \<lparr>nodes = [demoNodeT, demoNodeA], edges = [demoEdge]\<rparr>"

section \<open>Termination of the builder's loop\<close>

lemma queueWeight_append: "queueWeight (q @ q') = queueWeight q + queueWeight q'"
  by (simp add: queueWeight_def)

lemma addResult_queueWeight:
  "queueWeight (marketsToProcess (addResult env args cm l r st))
     \<le> queueWeight (marketsToProcess st) + 4 ^ (3 - Suc l)"
  by (simp add: addResult_def Let_def queueWeight_append split: option.splits)
     (simp add: queueWeight_def)

lemma fold_addResult_queueWeight:
  "queueWeight (marketsToProcess (fold (addResult env args cm l) rs st))
     \<le> queueWeight (marketsToProcess st) + length rs * 4 ^ (3 - Suc l)"
proof (induction rs arbitrary: st)
  case Nil
  show ?case by simp
next
  case (Cons r rs)
  have "queueWeight (marketsToProcess (fold (addResult env args cm l) rs (addResult env args cm l r st)))
          \<le> queueWeight (marketsToProcess (addResult env args cm l r st)) + length rs * 4 ^ (3 - Suc l)"
    by (rule Cons.IH)
  also have "\<dots> \<le> (queueWeight (marketsToProcess st) + 4 ^ (3 - Suc l)) + length rs * 4 ^ (3 - Suc l)"
    using addResult_queueWeight [of env args cm l r st] by simp
  finally show ?case by simp
qed

lemma getMaxNodesForLayer_le: "getMaxNodesForLayer lyr \<le> 3"
  by (simp add: getMaxNodesForLayer_def)

lemma length_sortedResults:
  "length (sortedResults env args k cm l processed) \<le> getMaxNodesForLayer (Suc l)"
  by (simp add: sortedResults_def Let_def)

lemma expandMarket_queueWeight:
  assumes "l < MAX_DEPTH"
  shows "queueWeight (marketsToProcess (expandMarket env args k cm l st))
           < queueWeight (marketsToProcess st) + 4 ^ (3 - l)"
proof -
  let ?rs = "sortedResults env args k cm l (processedMarkets st)"
  have n: "length ?rs \<le> 3"
    using length_sortedResults [of env args k cm l "processedMarkets st"]
          getMaxNodesForLayer_le [of "Suc l"] by linarith
  have "queueWeight (marketsToProcess (expandMarket env args k cm l st))
          \<le> queueWeight (marketsToProcess st) + length ?rs * 4 ^ (3 - Suc l)"
    unfolding expandMarket_def by (rule fold_addResult_queueWeight)
  also have "\<dots> \<le> queueWeight (marketsToProcess st) + 3 * 4 ^ (3 - Suc l)"
    using n by simp
  also have "\<dots> < queueWeight (marketsToProcess st) + 4 ^ (3 - l)"
  proof -
    from assms have "l = 0 \<or> l = 1 \<or> l = 2" by (auto simp: MAX_DEPTH_def)
    then show ?thesis by auto
  qed
  finally show ?thesis .
qed

termination buildLoop
proof (relation "measure (\<lambda>(env, args, k, st). queueWeight (marketsToProcess st))")
  show "wf (measure (\<lambda>(env, args, k, st). queueWeight (marketsToProcess st)))" by simp
next
  fix env args k and st :: BuildState and x :: "PolymarketMarket \<times> nat" and rest cm l
  assume q: "marketsToProcess st = x # rest" and x: "(cm, l) = x" and l: "l < MAX_DEPTH"
  have "queueWeight (marketsToProcess (expandMarket env args k cm l (st\<lparr>marketsToProcess := rest\<rparr>)))
          < queueWeight rest + 4 ^ (3 - l)"
    using expandMarket_queueWeight [OF l, of env args k cm "st\<lparr>marketsToProcess := rest\<rparr>"] by simp
  also have "\<dots> = queueWeight (marketsToProcess st)"
    using q x by (auto simp: queueWeight_def)
  finally show "((env, args, Suc k, expandMarket env args k cm l (st\<lparr>marketsToProcess := rest\<rparr>)),
                 (env, args, k, st))
                \<in> measure (\<lambda>(env, args, k, st). queueWeight (marketsToProcess st))"
    by simp
qed

termination expansions
proof (relation "measure (\<lambda>(env, args, k, st). queueWeight (marketsToProcess st))")
  show "wf (measure (\<lambda>(env, args, k, st). queueWeight (marketsToProcess st)))" by simp
next
  fix env args k and st :: BuildState and x :: "PolymarketMarket \<times> nat" and rest cm l
  assume q: "marketsToProcess st = x # rest" and x: "(cm, l) = x" and l: "l < MAX_DEPTH"
  have "queueWeight (marketsToProcess (expandMarket env args k cm l (st\<lparr>marketsToProcess := rest\<rparr>)))
          < queueWeight rest + 4 ^ (3 - l)"
    using expandMarket_queueWeight [OF l, of env args k cm "st\<lparr>marketsToProcess := rest\<rparr>"] by simp
  also have "\<dots> = queueWeight (marketsToProcess st)"
    using q x by (auto simp: queueWeight_def)
  finally show "((env, args, Suc k, expandMarket env args k cm l (st\<lparr>marketsToProcess := rest\<rparr>)),
                 (env, args, k, st))
                \<in> measure (\<lambda>(env, args, k, st). queueWeight (marketsToProcess st))"
    by simp
qed

declare buildLoop.simps [simp del] expansions.simps [simp del]

lemma expansions_Nil: "marketsToProcess st = [] \<Longrightarrow> expansions env args k st = []"
  by (subst expansions.simps) simp

lemma expansions_stop:
  "marketsToProcess st = (cm, l) # rest \<Longrightarrow> \<not> l < MAX_DEPTH \<Longrightarrow> expansions env args k st = []"
  by (subst expansions.simps) simp

lemma expansions_Cons:
  "marketsToProcess st = (cm, l) # rest \<Longrightarrow> l < MAX_DEPTH \<Longrightarrow>
   expansions env args k st =
     (k, cm, l, processedMarkets st) #
     expansions env args (Suc k) (expandMarket env args k cm l (st\<lparr>marketsToProcess := rest\<rparr>))"
  by (subst expansions.simps) simp

lemma buildLoop_Nil: "marketsToProcess st = [] \<Longrightarrow> buildLoop env args k st = st"
  by (subst buildLoop.simps) simp

lemma buildLoop_stop:
  "marketsToProcess st = (cm, l) # rest \<Longrightarrow> \<not> l < MAX_DEPTH \<Longrightarrow> buildLoop env args k st = st"
  by (subst buildLoop.simps) simp

lemma buildLoop_Cons:
  "marketsToProcess st = (cm, l) # rest \<Longrightarrow> l < MAX_DEPTH \<Longrightarrow>
   buildLoop env args k st =
     buildLoop env args (Suc k) (expandMarket env args k cm l (st\<lparr>marketsToProcess := rest\<rparr>))"
  by (subst buildLoop.simps) simp

section \<open>Correlation: symmetry and self-correlation\<close>

lemma corrLoop_exact:
  "corrLoop exact xs ys mean1 mean2 idxs =
     fold (\<lambda>i (covariance, variance1, variance2).
             let diff1 = xs ! i - mean1;
                 diff2 = ys ! i - mean2
             in (covariance + diff1 * diff2, variance1 + diff1 * diff1, variance2 + diff2 * diff2))
          idxs (0, 0, 0)"
  by (simp add: corrLoop_def exact_def)

lemma calculateCorrelation_exact:
  "calculateCorrelation exact xs ys =
     (if length xs \<noteq> length ys \<or> length xs < 10 then 0
      else
        let n = length xs;
            mean1 = foldl (\<lambda>sum p. sum + p) 0 xs / real n;
            mean2 = foldl (\<lambda>sum p. sum + p) 0 ys / real n
        in case corrLoop exact xs ys mean1 mean2 [0..<n] of
             (covariance, variance1, variance2) \<Rightarrow>
               let stdDev1 = sqrt (variance1 / real n);
                   stdDev2 = sqrt (variance2 / real n)
               in if stdDev1 = 0 \<or> stdDev2 = 0 then 0
                  else covariance / (real n * stdDev1 * stdDev2))"
  unfolding calculateCorrelation_def exact_def by (rule refl)





lemma corrLoop_fold_self:
  "fold (\<lambda>i (covariance, variance1, variance2).
             let diff1 = (xs :: real list) ! i - m; diff2 = xs ! i - m
             in (covariance + diff1 * diff2, variance1 + diff1 * diff1, variance2 + diff2 * diff2))
          idxs (v, v, v)
   = (let w = v + (\<Sum>i\<leftarrow>idxs. (xs ! i - m) * (xs ! i - m)) in (w, w, w))"
  by (induction idxs arbitrary: v) (simp_all add: Let_def add.assoc)

lemma corrLoop_self:
  "corrLoop exact xs xs m m idxs =
     (let w = (\<Sum>i\<leftarrow>idxs. (xs ! i - m) * (xs ! i - m)) in (w, w, w))"
  unfolding corrLoop_exact using corrLoop_fold_self [of xs m idxs 0] by simp

lemma sum_list_squares_nonneg: "0 \<le> (\<Sum>i\<leftarrow>idxs. (f i :: real) * f i)"
  by (induction idxs) simp_all

lemma sum_list_squares_zero:
  "(\<Sum>i\<leftarrow>idxs. (f i :: real) * f i) = 0 \<Longrightarrow> i \<in> set idxs \<Longrightarrow> f i = 0"
proof (induction idxs)
  case Nil
  then show ?case by simp
next
  case (Cons j idxs)
  have a: "0 \<le> f j * f j" by simp
  have b: "0 \<le> (\<Sum>i\<leftarrow>idxs. f i * f i)" by (rule sum_list_squares_nonneg)
  from Cons.prems(1) have "f j * f j + (\<Sum>i\<leftarrow>idxs. f i * f i) = 0" by simp
  with a b have "f j * f j = 0" "(\<Sum>i\<leftarrow>idxs. f i * f i) = 0" by linarith+
  with Cons show ?case by auto
qed

lemma calculateCorrelation_self:
  assumes len: "10 \<le> length xs" and nc: "\<exists>a\<in>set xs. \<exists>b\<in>set xs. a \<noteq> b"
  shows "calculateCorrelation exact xs xs = 1"
proof -
  define n where "n = length xs"
  define m where "m = foldl (\<lambda>sum p. sum + p) 0 xs / real n"
  define w where "w = (\<Sum>i\<leftarrow>[0..<n]. (xs ! i - m) * (xs ! i - m))"
  have npos: "0 < real n" using len by (cases xs) (simp_all add: n_def)
  have w0: "0 \<le> w" unfolding w_def by (rule sum_list_squares_nonneg)
  have wne: "w \<noteq> 0"
  proof
    assume z: "w = 0"
    have "\<And>i. i < n \<Longrightarrow> xs ! i = m"
    proof -
      fix i assume "i < n"
      then have "i \<in> set [0..<n]" by simp
      from sum_list_squares_zero [OF z [unfolded w_def] this] show "xs ! i = m" by simp
    qed
    then have "\<And>a. a \<in> set xs \<Longrightarrow> a = m"
      by (auto simp: in_set_conv_nth n_def)
    with nc show False by blast
  qed
  have wpos: "0 < w" using w0 wne by simp
  have L: "corrLoop exact xs xs m m [0..<n] = (w, w, w)"
    by (simp add: corrLoop_self w_def Let_def)
  have s: "sqrt (w / real n) \<noteq> 0" using wpos npos by simp
  have "w / (real n * sqrt (w / real n) * sqrt (w / real n)) = w / (real n * (w / real n))"
    using wpos npos by (simp add: mult.assoc)
  also have "\<dots> = 1" using wpos npos by simp
  finally have q: "w / (real n * sqrt (w / real n) * sqrt (w / real n)) = 1" .
  have "calculateCorrelation exact xs xs = w / (real n * sqrt (w / real n) * sqrt (w / real n))"
    using len s L by (simp add: calculateCorrelation_exact Let_def n_def [symmetric] m_def [symmetric])
  with q show ?thesis by simp
qed




section \<open>Series alignment\<close>

lemma alignLoop_lengths:
  "length (prices1 out) = length (timestamps out) \<Longrightarrow>
   length (prices2 out) = length (timestamps out) \<Longrightarrow>
   length (prices1 (alignLoop s1 s2 out)) = length (timestamps (alignLoop s1 s2 out)) \<and>
   length (prices2 (alignLoop s1 s2 out)) = length (timestamps (alignLoop s1 s2 out))"
  by (induction s1 s2 out rule: alignLoop.induct) (simp_all add: Let_def)

lemma alignLoop_empty: "alignLoop [] s2 out = out" "alignLoop s1 [] out = out"
  by (cases s2; simp) (cases s1; simp)

lemma alignLoop_strict:
  "sorted_wrt (<) (map point_t s1) \<Longrightarrow> sorted_wrt (<) (map point_t s2) \<Longrightarrow>
   sorted_wrt (<) (timestamps out) \<Longrightarrow>
   (\<forall>x\<in>set (timestamps out). (\<forall>a\<in>set s1. x < point_t a) \<and> (\<forall>b\<in>set s2. x < point_t b)) \<Longrightarrow>
   sorted_wrt (<) (timestamps (alignLoop s1 s2 out))"
proof (induction s1 s2 out rule: alignLoop.induct)
  case (1 a sorted1 b sorted2 out)
  show ?case
  proof (cases "\<bar>point_t a - point_t b\<bar> \<le> TOLERANCE")
    case True
    let ?out = "out\<lparr>prices1 := prices1 out @ [point_p a],
                     prices2 := prices2 out @ [point_p b],
                     timestamps := timestamps out @ [min (point_t a) (point_t b)]\<rparr>"
    have s: "sorted_wrt (<) (timestamps ?out)"
      using "1.prems" by (auto simp: sorted_wrt_append)
    have b: "\<forall>x\<in>set (timestamps ?out). (\<forall>a\<in>set sorted1. x < point_t a) \<and> (\<forall>b\<in>set sorted2. x < point_t b)"
      using "1.prems" by (auto simp: min_def)
    have "sorted_wrt (<) (timestamps (alignLoop sorted1 sorted2 ?out))"
      using "1.IH"(1) [OF refl refl refl True _ _ s b] "1.prems" by simp
    with True show ?thesis by (simp add: Let_def)
  next
    case False
    show ?thesis
    proof (cases "point_t a < point_t b")
      case True
      have "sorted_wrt (<) (timestamps (alignLoop sorted1 (b # sorted2) out))"
        using "1.IH"(2) [OF refl refl refl False True] "1.prems" by simp
      with False True show ?thesis by (simp add: Let_def)
    next
      case nlt: False
      have "sorted_wrt (<) (timestamps (alignLoop (a # sorted1) sorted2 out))"
        using "1.IH"(3) [OF refl refl refl False nlt] "1.prems" by simp
      with False nlt show ?thesis by (simp add: Let_def)
    qed
  qed
qed simp_all

lemma sort_key_strict:
  assumes "distinct (map point_t h)"
  shows "sorted_wrt (<) (map point_t (sort_key point_t h))"
proof -
  have "distinct (map point_t (sort_key point_t h))"
    using assms by (simp add: distinct_map)
  then show ?thesis by (simp add: strict_sorted_iff)
qed

text \<open>
  C7 (amended). For all pairs of input series the three outputs of \<open>alignPriceSeries\<close>
  have the same length; if neither input series repeats a timestamp, the matched
  timestamps are strictly increasing, so none appears twice; if either input is empty,
  all outputs are empty. The function is total: no branch of the source throws.
\<close>

theorem alignPriceSeries_shape:
  "length (prices1 (alignPriceSeries history1 history2)) = length (timestamps (alignPriceSeries history1 history2))
   \<and> length (prices2 (alignPriceSeries history1 history2)) = length (timestamps (alignPriceSeries history1 history2))
   \<and> (distinct (map point_t history1) \<longrightarrow> distinct (map point_t history2) \<longrightarrow>
        sorted_wrt (<) (timestamps (alignPriceSeries history1 history2))
        \<and> distinct (timestamps (alignPriceSeries history1 history2)))
   \<and> (history1 = [] \<or> history2 = [] \<longrightarrow>
        alignPriceSeries history1 history2 = \<lparr>prices1 = [], prices2 = [], timestamps = []\<rparr>)"
proof -
  let ?e = "\<lparr>prices1 = [], prices2 = [], timestamps = []\<rparr>"
  have l: "length (prices1 (alignPriceSeries history1 history2)) = length (timestamps (alignPriceSeries history1 history2))
   \<and> length (prices2 (alignPriceSeries history1 history2)) = length (timestamps (alignPriceSeries history1 history2))"
    unfolding alignPriceSeries_def Let_def by (rule alignLoop_lengths) simp_all
  have d: "sorted_wrt (<) (timestamps (alignPriceSeries history1 history2))"
    if "distinct (map point_t history1)" "distinct (map point_t history2)"
    unfolding alignPriceSeries_def Let_def
    by (rule alignLoop_strict) (simp_all add: sort_key_strict that)
  have e: "alignPriceSeries history1 history2 = ?e" if "history1 = [] \<or> history2 = []"
    using that by (auto simp: alignPriceSeries_def alignLoop_empty)
  show ?thesis using l d e by (auto simp: strict_sorted_iff)
qed

theorem alignPriceSeries_shape_witness:
  "timestamps (alignPriceSeries
     [\<lparr>point_t = 7200, point_p = 3/5\<rparr>, \<lparr>point_t = 0, point_p = 1/2\<rparr>]
     [\<lparr>point_t = 100, point_p = 3/10\<rparr>, \<lparr>point_t = 7000, point_p = 2/5\<rparr>]) = [0, 7000]
   \<and> distinct (timestamps (alignPriceSeries
     [\<lparr>point_t = 7200, point_p = 3/5\<rparr>, \<lparr>point_t = 0, point_p = 1/2\<rparr>]
     [\<lparr>point_t = 100, point_p = 3/10\<rparr>, \<lparr>point_t = 7000, point_p = 2/5\<rparr>]))
   \<and> alignPriceSeries [] [\<lparr>point_t = 100, point_p = 3/10\<rparr>]
       = \<lparr>prices1 = [], prices2 = [], timestamps = []\<rparr>"
  using alignPriceSeries_shape
          [of "[\<lparr>point_t = 7200, point_p = 3/5\<rparr>, \<lparr>point_t = 0, point_p = 1/2\<rparr>]"
              "[\<lparr>point_t = 100, point_p = 3/10\<rparr>, \<lparr>point_t = 7000, point_p = 2/5\<rparr>]"]
        alignPriceSeries_shape [of "[]" "[\<lparr>point_t = 100, point_p = 3/10\<rparr>]"]
  by (simp add: alignPriceSeries_def TOLERANCE_def)

text \<open>
  The claim as stated fails when an input repeats a timestamp: both series below hold two
  points at second 100, and the matched timestamps are \<open>[100, 100]\<close>.
\<close>

theorem alignPriceSeries_timestamps_counterexample:
  "timestamps (alignPriceSeries
     [\<lparr>point_t = 100, point_p = 1/2\<rparr>, \<lparr>point_t = 100, point_p = 3/5\<rparr>]
     [\<lparr>point_t = 100, point_p = 3/10\<rparr>, \<lparr>point_t = 100, point_p = 2/5\<rparr>]) = [100, 100]"
  by (simp add: alignPriceSeries_def TOLERANCE_def)

section \<open>The API route rejects an outcome the trigger market does not list\<close>

text \<open>
  C9 (amended). If the request names a trigger market that is found and an outcome label
  that is not among that market's outcomes, the route answers with the error
  "Invalid outcome for this market" (status 400) and no graph; whatever the request, a
  successful response implies that the outcome is one of the trigger market's outcomes.
  This is not the only error the caller can receive: a missing market id or outcome is
  answered with status 400, a trigger market that is not found with 404, fewer than 100
  available markets with 500, and an exception (in fetching the markets or in reading the
  request) with 500.
\<close>

theorem POST_invalid_outcome:
  "(body_marketId body = Some mid \<and> mid \<noteq> [] \<and> body_outcome body = Some outcome \<and> outcome \<noteq> []
      \<and> getMarketDetails env mid = Some trigger \<and> outcome \<notin> set (outcomes trigger)
     \<longrightarrow> POST env (Some body) = ErrorResponse InvalidOutcome 400) \<and>
   (POST env request = SuccessResponse g
     \<longrightarrow> (\<exists>b m oc tr. request = Some b \<and> body_marketId b = Some m \<and> body_outcome b = Some oc
            \<and> getMarketDetails env m = Some tr \<and> oc \<in> set (outcomes tr))) \<and>
   (falsy (body_marketId body) \<or> falsy (body_outcome body)
     \<longrightarrow> POST env (Some body) = ErrorResponse MissingRequiredFields 400) \<and>
   (body_marketId body = Some mid \<and> mid \<noteq> [] \<and> body_outcome body = Some outcome \<and> outcome \<noteq> []
      \<and> getMarketDetails env mid = None
     \<longrightarrow> POST env (Some body) = ErrorResponse TriggerMarketNotFound 404) \<and>
   (body_marketId body = Some mid \<and> mid \<noteq> [] \<and> body_outcome body = Some outcome \<and> outcome \<noteq> []
      \<and> getMarketDetails env mid = Some trigger \<and> outcome \<in> set (outcomes trigger)
      \<and> getMarkets env = Inr available \<and> length available < 100
     \<longrightarrow> POST env (Some body) = ErrorResponse (TooFewMarkets (length available)) 500) \<and>
   (body_marketId body = Some mid \<and> mid \<noteq> [] \<and> body_outcome body = Some outcome \<and> outcome \<noteq> []
      \<and> getMarketDetails env mid = Some trigger \<and> outcome \<in> set (outcomes trigger)
      \<and> getMarkets env = Inl err
     \<longrightarrow> POST env (Some body) = ErrorResponse FailedToRunSimulation 500) \<and>
   POST env None = ErrorResponse FailedToRunSimulation 500"
proof -
  have 1: "POST env (Some body) = ErrorResponse InvalidOutcome 400"
    if "body_marketId body = Some mid" "mid \<noteq> []" "body_outcome body = Some outcome" "outcome \<noteq> []"
       "getMarketDetails env mid = Some trigger" "outcome \<notin> set (outcomes trigger)"
    using that by (simp add: POST_def falsy_def)
  have 2: "\<exists>b m oc tr. request = Some b \<and> body_marketId b = Some m \<and> body_outcome b = Some oc
            \<and> getMarketDetails env m = Some tr \<and> oc \<in> set (outcomes tr)"
    if "POST env request = SuccessResponse g"
    using that
    by (auto simp: POST_def falsy_def Let_def split: option.splits if_splits sum.splits)
  have 3: "POST env (Some body) = ErrorResponse MissingRequiredFields 400"
    if "falsy (body_marketId body) \<or> falsy (body_outcome body)"
    using that by (simp add: POST_def)
  have 4: "POST env (Some body) = ErrorResponse TriggerMarketNotFound 404"
    if "body_marketId body = Some mid" "mid \<noteq> []" "body_outcome body = Some outcome" "outcome \<noteq> []"
       "getMarketDetails env mid = None"
    using that by (simp add: POST_def falsy_def)
  have 5: "POST env (Some body) = ErrorResponse (TooFewMarkets (length available)) 500"
    if "body_marketId body = Some mid" "mid \<noteq> []" "body_outcome body = Some outcome" "outcome \<noteq> []"
       "getMarketDetails env mid = Some trigger" "outcome \<in> set (outcomes trigger)"
       "getMarkets env = Inr available" "length available < 100"
    using that by (simp add: POST_def falsy_def)
  have 6: "POST env (Some body) = ErrorResponse FailedToRunSimulation 500"
    if "body_marketId body = Some mid" "mid \<noteq> []" "body_outcome body = Some outcome" "outcome \<noteq> []"
       "getMarketDetails env mid = Some trigger" "outcome \<in> set (outcomes trigger)"
       "getMarkets env = Inl err"
    using that by (simp add: POST_def falsy_def)
  have 7: "POST env None = ErrorResponse FailedToRunSimulation 500"
    by (simp add: POST_def)
  show ?thesis using 1 2 3 4 5 6 7 by blast
qed

theorem POST_invalid_outcome_witness:
  "POST demoEnv (Some \<lparr>body_marketId = Some ''t'', body_outcome = Some ''Maybe'', body_params = None\<rparr>)
     = ErrorResponse InvalidOutcome 400 \<and>
   POST demoEnv (Some \<lparr>body_marketId = Some ''t'', body_outcome = None, body_params = None\<rparr>)
     = ErrorResponse MissingRequiredFields 400 \<and>
   POST demoEnv (Some \<lparr>body_marketId = Some ''u'', body_outcome = Some ''Yes'', body_params = None\<rparr>)
     = ErrorResponse TriggerMarketNotFound 404 \<and>
   POST demoEnv (Some \<lparr>body_marketId = Some ''t'', body_outcome = Some ''Yes'', body_params = None\<rparr>)
     = ErrorResponse (TooFewMarkets 0) 500 \<and>
   POST (demoEnv\<lparr>getMarkets := Inl ''unavailable''\<rparr>)
        (Some \<lparr>body_marketId = Some ''t'', body_outcome = Some ''Yes'', body_params = None\<rparr>)
     = ErrorResponse FailedToRunSimulation 500"
proof -
  let ?maybe = "\<lparr>body_marketId = Some ''t'', body_outcome = Some ''Maybe'', body_params = None\<rparr>"
  let ?none = "\<lparr>body_marketId = Some ''t'', body_outcome = None, body_params = None\<rparr>"
  let ?u = "\<lparr>body_marketId = Some ''u'', body_outcome = Some ''Yes'', body_params = None\<rparr>"
  let ?yes = "\<lparr>body_marketId = Some ''t'', body_outcome = Some ''Yes'', body_params = None\<rparr>"
  let ?env = "demoEnv\<lparr>getMarkets := Inl ''unavailable''\<rparr>"
  have "body_marketId ?maybe = Some ''t'' \<and> ''t'' \<noteq> [] \<and> body_outcome ?maybe = Some ''Maybe''
        \<and> ''Maybe'' \<noteq> [] \<and> getMarketDetails demoEnv ''t'' = Some demoT
        \<and> ''Maybe'' \<notin> set (outcomes demoT)"
    by (simp add: demoEnv_def demoT_def)
  with POST_invalid_outcome [where body = ?maybe and mid = "''t''" and outcome = "''Maybe''"
      and env = demoEnv and trigger = demoT]
  have a: "POST demoEnv (Some ?maybe) = ErrorResponse InvalidOutcome 400" by blast
  have "falsy (body_marketId ?none) \<or> falsy (body_outcome ?none)"
    by (simp add: falsy_def)
  with POST_invalid_outcome [where body = ?none and env = demoEnv]
  have b: "POST demoEnv (Some ?none) = ErrorResponse MissingRequiredFields 400" by blast
  have "body_marketId ?u = Some ''u'' \<and> ''u'' \<noteq> [] \<and> body_outcome ?u = Some ''Yes''
        \<and> ''Yes'' \<noteq> [] \<and> getMarketDetails demoEnv ''u'' = None"
    by (simp add: demoEnv_def)
  with POST_invalid_outcome [where body = ?u and mid = "''u''" and outcome = "''Yes''"
      and env = demoEnv]
  have c: "POST demoEnv (Some ?u) = ErrorResponse TriggerMarketNotFound 404" by blast
  have "body_marketId ?yes = Some ''t'' \<and> ''t'' \<noteq> [] \<and> body_outcome ?yes = Some ''Yes''
        \<and> ''Yes'' \<noteq> [] \<and> getMarketDetails demoEnv ''t'' = Some demoT
        \<and> ''Yes'' \<in> set (outcomes demoT) \<and> getMarkets demoEnv = Inr [] \<and>
        length ([] :: PolymarketMarket list) < 100"
    by (simp add: demoEnv_def demoT_def)
  with POST_invalid_outcome [where body = ?yes and mid = "''t''" and outcome = "''Yes''"
      and env = demoEnv and trigger = demoT and available = "[]"]
  have d: "POST demoEnv (Some ?yes) = ErrorResponse (TooFewMarkets 0) 500" by simp
  have "body_marketId ?yes = Some ''t'' \<and> ''t'' \<noteq> [] \<and> body_outcome ?yes = Some ''Yes''
        \<and> ''Yes'' \<noteq> [] \<and> getMarketDetails ?env ''t'' = Some demoT
        \<and> ''Yes'' \<in> set (outcomes demoT) \<and> getMarkets ?env = Inl ''unavailable''"
    by (simp add: demoEnv_def demoT_def)
  with POST_invalid_outcome [where body = ?yes and mid = "''t''" and outcome = "''Yes''"
      and env = ?env and trigger = demoT and err = "''unavailable''"]
  have e: "POST ?env (Some ?yes) = ErrorResponse FailedToRunSimulation 500" by blast
  from a b c d e show ?thesis by (intro conjI)
qed

text \<open>
  The claim as stated fails in its last part: the outcome Yes is listed by the trigger
  market, yet the caller receives an error, because fewer than 100 markets were fetched.
\<close>

theorem POST_other_fatal_counterexample:
  "''Yes'' \<in> set (outcomes demoT) \<and>
   POST demoEnv (Some \<lparr>body_marketId = Some ''t'', body_outcome = Some ''Yes'', body_params = None\<rparr>)
     = ErrorResponse (TooFewMarkets 0) 500"
  by (simp add: POST_def falsy_def demoEnv_def demoT_def)

section \<open>The invariant of the builder's loop\<close>

lemma kids_snoc:
  assumes sub: "fst ` set sk \<subseteq> P" and x: "x \<notin> P"
      and E: "\<And>a b. (a, b) \<in> set E \<Longrightarrow> \<exists>la. (a, la) \<in> set sk \<and> (b, Suc la) \<in> set sk"
  shows "kids (sk @ [(x, lx)]) (E @ [(c, x)]) p lyr =
           kids sk E p lyr @ (if p = c \<and> lyr = lx then [(x, lx)] else [])"
proof -
  have old: "filter (\<lambda>(y, l). l = lyr \<and> (p, y) \<in> set (E @ [(c, x)])) sk
              = filter (\<lambda>(y, l). l = lyr \<and> (p, y) \<in> set E) sk"
  proof (rule filter_cong [OF refl])
    fix e assume e: "e \<in> set sk"
    then have "fst e \<in> P" using sub by blast
    with x have "fst e \<noteq> x" by blast
    then show "(case e of (y, l) \<Rightarrow> l = lyr \<and> (p, y) \<in> set (E @ [(c, x)]))
             = (case e of (y, l) \<Rightarrow> l = lyr \<and> (p, y) \<in> set E)"
      by (cases e) simp
  qed
  have notin: "(p, x) \<notin> set E"
  proof
    assume "(p, x) \<in> set E"
    from E [OF this] obtain la where "(x, Suc la) \<in> set sk" by blast
    then have "fst (x, Suc la) \<in> fst ` set sk" by (rule imageI)
    with sub x show False by auto
  qed
  have last: "filter (\<lambda>(y, l). l = lyr \<and> (p, y) \<in> set (E @ [(c, x)])) [(x, lx)]
               = (if p = c \<and> lyr = lx then [(x, lx)] else [])"
    using notin by auto
  have "kids (sk @ [(x, lx)]) (E @ [(c, x)]) p lyr
          = filter (\<lambda>(y, l). l = lyr \<and> (p, y) \<in> set (E @ [(c, x)])) sk
            @ filter (\<lambda>(y, l). l = lyr \<and> (p, y) \<in> set (E @ [(c, x)])) [(x, lx)]"
    by (simp only: kids_def filter_append)
  then show ?thesis by (simp only: old last kids_def)
qed

lemma shapeInv_step:
  assumes inv: "shapeInv tid md bnd sk E P Q"
      and c: "(c, l) \<in> set sk" "c \<notin> fst ` set Q" "l < 3" "l = 0 \<or> real l < md"
      and x: "x \<notin> P"
      and Q': "Q' = Q \<or> (Q' = Q @ [(x, Suc l)] \<and> real (Suc l) < md)"
  shows "shapeInv tid md (\<lambda>p lyr. if p = c \<and> lyr = Suc l then Suc (bnd p lyr) else bnd p lyr)
           (sk @ [(x, Suc l)]) (E @ [(c, x)]) (insert x P) Q'"
proof -
  from inv have d: "distinct (map fst sk)" and sub: "fst ` set sk \<subseteq> P"
    and Qs: "set Q \<subseteq> set sk" and dQ: "distinct (map fst Q)"
    and E: "\<And>a b. (a, b) \<in> set E \<Longrightarrow> \<exists>la. (a, la) \<in> set sk \<and> (b, Suc la) \<in> set sk"
    and N: "\<And>y l'. (y, l') \<in> set sk \<Longrightarrow>
              l' \<le> 3 \<and> (l' = 0 \<or> (0 < md \<longrightarrow> real l' < md + 1)) \<and>
              (l' = 1 \<longrightarrow> (tid, y) \<in> set E) \<and> (l' = 0 \<longrightarrow> y = tid)"
    and QE: "\<And>y l'. (y, l') \<in> set Q \<Longrightarrow> (\<forall>b. (y, b) \<notin> set E) \<and> (l' = 0 \<or> real l' < md)"
    and K: "\<And>p lyr. length (kids sk E p lyr) \<le> bnd p lyr"
    unfolding shapeInv_def by blast+
  have inP: "y \<in> P" if "(y, l') \<in> set sk" for y l'
  proof -
    from that have "fst (y, l') \<in> fst ` set sk" by (rule imageI)
    with sub show ?thesis by auto
  qed
  have xsk: "x \<notin> fst ` set sk" using sub x by blast
  have xQ: "x \<notin> fst ` set Q" using Qs xsk by blast
  have cP: "c \<in> P" using c(1) by (rule inP)
  have cx: "c \<noteq> x" using cP x by blast
  have src: "a \<in> P" if "(a, b) \<in> set E" for a b
  proof -
    from E [OF that] obtain la where "(a, la) \<in> set sk" by blast
    then show ?thesis by (rule inP)
  qed
  have c0: "c = tid" if "l = 0"
    using N [OF c(1)] that by blast
  have 1: "distinct (map fst (sk @ [(x, Suc l)]))" using d xsk by simp
  have 2: "fst ` set (sk @ [(x, Suc l)]) \<subseteq> insert x P" using sub by auto
  have 3: "set Q' \<subseteq> set (sk @ [(x, Suc l)])" using Qs Q' by auto
  have 4: "distinct (map fst Q')" using dQ xQ Q' by auto
  have 5: "\<exists>la. (a, la) \<in> set (sk @ [(x, Suc l)]) \<and> (b, Suc la) \<in> set (sk @ [(x, Suc l)])"
    if "(a, b) \<in> set (E @ [(c, x)])" for a b
  proof (cases "(a, b) \<in> set E")
    case True
    from E [OF this] obtain la where "(a, la) \<in> set sk" "(b, Suc la) \<in> set sk" by blast
    then have "(a, la) \<in> set (sk @ [(x, Suc l)]) \<and> (b, Suc la) \<in> set (sk @ [(x, Suc l)])" by simp
    then show ?thesis ..
  next
    case False
    with that have "a = c" "b = x" by auto
    with c(1) have "(a, l) \<in> set (sk @ [(x, Suc l)]) \<and> (b, Suc l) \<in> set (sk @ [(x, Suc l)])" by simp
    then show ?thesis ..
  qed
  have 6: "l' \<le> 3 \<and> (l' = 0 \<or> (0 < md \<longrightarrow> real l' < md + 1)) \<and>
           (l' = 1 \<longrightarrow> (tid, y) \<in> set (E @ [(c, x)])) \<and> (l' = 0 \<longrightarrow> y = tid)"
    if "(y, l') \<in> set (sk @ [(x, Suc l)])" for y l'
  proof (cases "(y, l') \<in> set sk")
    case True
    from N [OF this] show ?thesis by simp
  next
    case False
    with that have yl: "y = x" "l' = Suc l" by auto
    have a: "Suc l \<le> 3" using c(3) by simp
    have b: "0 < md \<longrightarrow> real (Suc l) < md + 1" using c(4) by auto
    have e: "Suc l = 1 \<longrightarrow> (tid, x) \<in> set (E @ [(c, x)])" using c0 by simp
    show ?thesis unfolding yl using a b e by simp
  qed
  have 7: "(\<forall>b. (y, b) \<notin> set (E @ [(c, x)])) \<and> (l' = 0 \<or> real l' < md)"
    if "(y, l') \<in> set Q'" for y l'
  proof (cases "(y, l') \<in> set Q")
    case True
    then have "fst (y, l') \<in> fst ` set Q" by (rule imageI)
    with c(2) have "c \<noteq> y" by auto
    with QE [OF True] show ?thesis by simp
  next
    case False
    with that Q' have yl: "y = x" "l' = Suc l" and md: "real (Suc l) < md" by auto
    have "(x, b) \<notin> set E" for b using src [of x b] x by blast
    then show ?thesis unfolding yl using cx md by simp
  qed
  have 8: "length (kids (sk @ [(x, Suc l)]) (E @ [(c, x)]) p lyr)
               \<le> (if p = c \<and> lyr = Suc l then Suc (bnd p lyr) else bnd p lyr)" for p lyr
    using K [of p lyr] by (cases "p = c \<and> lyr = Suc l") (auto simp: kids_snoc [OF sub x E])
  show ?thesis
    unfolding shapeInv_def
    apply (intro conjI allI impI)
    subgoal by (rule 1)
    subgoal by (rule 2)
    subgoal by (rule 3)
    subgoal by (rule 4)
    subgoal for a b by (rule 5)
    subgoal for y l' using 6 [of y l'] by blast
    subgoal for y l' using 6 [of y l'] by blast
    subgoal for y l' using 6 [of y l'] by blast
    subgoal for y l' using 6 [of y l'] by blast
    subgoal for y l' b using 7 [of y l'] by blast
    subgoal for y l' using 7 [of y l'] by blast
    subgoal for p lyr by (rule 8)
    done
qed

lemma map_updateFirst: "(\<And>x. h (f x) = h x) \<Longrightarrow> map h (updateFirst P f xs) = map h xs"
  by (induction xs) simp_all

lemma skel_updateFirst:
  "skel (updateFirst P (\<lambda>n. n\<lparr>outgoingLinks := g n\<rparr>) ns) = skel ns"
  unfolding skel_def by (rule map_updateFirst) (simp add: nodeId_def)

lemma nodeFor_simps:
  "market (nodeFor env args cm l mkt v) = mkt"
  "layer (nodeFor env args cm l mkt v) = Suc l"
  "nodeId (nodeFor env args cm l mkt v) = market_id mkt"
  by (simp_all add: nodeFor_def Let_def nodeId_def)

lemma edgeFor_simps:
  "sourceMarketId (edgeFor env args cm mkt v) = market_id cm"
  "targetMarketId (edgeFor env args cm mkt v) = market_id mkt"
  "link_strength (edgeFor env args cm mkt v) = strength v"
  by (simp_all add: edgeFor_def)

lemma addResult_cases:
  obtains (skip) "addResult env args cm l v st = st"
  | (add) mkt where
      "find (\<lambda>m. market_id m = marketId v) (availableMarkets args) = Some mkt"
      "market_id mkt \<notin> processedMarkets st"
      "nodes (addResult env args cm l v st) =
         updateFirst (\<lambda>n. nodeId n = market_id cm)
           (\<lambda>n. n\<lparr>outgoingLinks := outgoingLinks n @ [edgeFor env args cm mkt v]\<rparr>)
           (nodes st @ [nodeFor env args cm l mkt v])"
      "edges (addResult env args cm l v st) = edges st @ [edgeFor env args cm mkt v]"
      "processedMarkets (addResult env args cm l v st) = insert (market_id mkt) (processedMarkets st)"
      "marketsToProcess (addResult env args cm l v st) = marketsToProcess st \<or>
       (marketsToProcess (addResult env args cm l v st) = marketsToProcess st @ [(mkt, Suc l)] \<and>
        real (Suc l) < maxDepth (params args))"
proof (cases "find (\<lambda>m. market_id m = marketId v) (availableMarkets args)")
  case None
  then have "addResult env args cm l v st = st" by (simp add: addResult_def)
  then show ?thesis by (rule skip)
next
  case (Some mkt)
  show ?thesis
  proof (cases "market_id mkt \<in> processedMarkets st")
    case True
    with Some have "addResult env args cm l v st = st" by (simp add: addResult_def)
    then show ?thesis by (rule skip)
  next
    case False
    show ?thesis
      by (rule add [of mkt]) (use Some False in \<open>simp_all add: addResult_def Let_def\<close>)
  qed
qed

lemma shapeInv_mono:
  "shapeInv tid md bnd sk E P Q \<Longrightarrow> (\<And>p lyr. bnd p lyr \<le> bnd' p lyr) \<Longrightarrow>
   shapeInv tid md bnd' sk E P Q"
  unfolding shapeInv_def by (meson order_trans)

lemma addResult_expanding:
  assumes e: "expanding tid (maxDepth (params args)) (market_id cm) l j st"
  shows "expanding tid (maxDepth (params args)) (market_id cm) l (Suc j) (addResult env args cm l v st)"
proof (cases rule: addResult_cases [of env args cm l v st])
  case skip
  from e have "stateInv tid (maxDepth (params args)) (stepBound (market_id cm) l (Suc j)) st"
    unfolding expanding_def stateInv_def
    by (elim conjE, elim shapeInv_mono) (simp add: stepBound_def)
  with e show ?thesis unfolding skip expanding_def by simp
next
  case (add mkt)
  let ?md = "maxDepth (params args)" and ?c = "market_id cm" and ?x = "market_id mkt"
  let ?st' = "addResult env args cm l v st"
  from e have inv: "shapeInv tid ?md (stepBound ?c l j) (skel (nodes st)) (ends (edges st))
                      (processedMarkets st) (queueIds (marketsToProcess st))"
    and c: "(?c, l) \<in> set (skel (nodes st))" "?c \<notin> fst ` set (queueIds (marketsToProcess st))"
           "l < 3" "l = 0 \<or> real l < ?md"
    by (simp_all add: expanding_def stateInv_def)
  have sk: "skel (nodes ?st') = skel (nodes st) @ [(?x, Suc l)]"
    unfolding add(3) skel_updateFirst by (simp add: skel_def nodeFor_simps)
  have E: "ends (edges ?st') = ends (edges st) @ [(?c, ?x)]"
    unfolding add(4) by (simp add: ends_def edgeFor_simps)
  have Q: "queueIds (marketsToProcess ?st') = queueIds (marketsToProcess st) \<or>
           (queueIds (marketsToProcess ?st') = queueIds (marketsToProcess st) @ [(?x, Suc l)] \<and>
            real (Suc l) < ?md)"
    using add(6) by (auto simp: queueIds_def)
  have b: "(\<lambda>p lyr. if p = ?c \<and> lyr = Suc l then Suc (stepBound ?c l j p lyr) else stepBound ?c l j p lyr)
            = stepBound ?c l (Suc j)"
    by (intro ext) (simp add: stepBound_def)
  from shapeInv_step [OF inv c add(2) Q]
  have inv': "stateInv tid ?md (stepBound ?c l (Suc j)) ?st'"
    unfolding stateInv_def sk E add(5) b .
  have xc: "?x \<noteq> ?c"
  proof -
    from inv have "fst ` set (skel (nodes st)) \<subseteq> processedMarkets st" by (simp add: shapeInv_def)
    moreover from c(1) have "fst (?c, l) \<in> fst ` set (skel (nodes st))" by (rule imageI)
    ultimately have "?c \<in> processedMarkets st" by auto
    with add(2) show ?thesis by auto
  qed
  have c1': "(?c, l) \<in> set (skel (nodes ?st'))" using c(1) by (simp add: sk)
  have c2': "?c \<notin> fst ` set (queueIds (marketsToProcess ?st'))"
    using c(2) Q xc by auto
  show ?thesis unfolding expanding_def using inv' c1' c2' c(3,4) by simp
qed

lemma fold_addResult_expanding:
  "expanding tid (maxDepth (params args)) (market_id cm) l j st \<Longrightarrow>
   expanding tid (maxDepth (params args)) (market_id cm) l (j + length vs)
     (fold (addResult env args cm l) vs st)"
proof (induction vs arbitrary: j st)
  case Nil
  then show ?case by simp
next
  case (Cons v vs)
  from Cons.IH [OF addResult_expanding [OF Cons.prems, of env v]]
  show ?case by simp
qed

lemma expandMarket_stateInv:
  assumes inv: "stateInv tid (maxDepth (params args)) cap st"
      and q: "marketsToProcess st = (cm, l) # rest" and l: "l < MAX_DEPTH"
  shows "stateInv tid (maxDepth (params args)) cap
           (expandMarket env args k cm l (st\<lparr>marketsToProcess := rest\<rparr>))"
proof -
  let ?md = "maxDepth (params args)" and ?c = "market_id cm"
  let ?st0 = "st\<lparr>marketsToProcess := rest\<rparr>"
  let ?sk = "skel (nodes st)" and ?E = "ends (edges st)" and ?Q = "queueIds rest"
  from inv q have S: "shapeInv tid ?md cap ?sk ?E (processedMarkets st) ((?c, l) # ?Q)"
    by (simp add: stateInv_def queueIds_def)
  then have csk: "(?c, l) \<in> set ?sk" and cQ: "?c \<notin> fst ` set ?Q"
    and noE: "\<And>b. (?c, b) \<notin> set ?E" and lm: "l = 0 \<or> real l < ?md"
    unfolding shapeInv_def by auto
  have k0: "kids ?sk ?E ?c lyr = []" for lyr
    using noE by (simp add: kids_def filter_empty_conv)
  have S0: "shapeInv tid ?md (stepBound ?c l 0) ?sk ?E (processedMarkets st) ?Q"
    unfolding shapeInv_def
    apply (intro conjI allI impI)
    subgoal using S unfolding shapeInv_def by blast
    subgoal using S unfolding shapeInv_def by blast
    subgoal using S unfolding shapeInv_def by auto
    subgoal using S unfolding shapeInv_def by auto
    subgoal for a b using S unfolding shapeInv_def by blast
    subgoal for y l' using S unfolding shapeInv_def by blast
    subgoal for y l' using S unfolding shapeInv_def by blast
    subgoal for y l' using S unfolding shapeInv_def by blast
    subgoal for y l' using S unfolding shapeInv_def by blast
    subgoal for y l' b using S unfolding shapeInv_def by auto
    subgoal for y l' using S unfolding shapeInv_def by auto
    subgoal for p lyr
    proof (cases "p = ?c \<and> lyr = Suc l")
      case True
      then show ?thesis by (simp add: k0)
    next
      case False
      moreover from S have "length (kids ?sk ?E p lyr) \<le> getMaxNodesForLayer lyr"
        unfolding shapeInv_def by blast
      ultimately show ?thesis by (auto simp: stepBound_def)
    qed
    done
  have e0: "expanding tid ?md ?c l 0 ?st0"
    unfolding expanding_def stateInv_def using S0 csk cQ l lm by (simp add: MAX_DEPTH_def)
  let ?vs = "sortedResults env args k cm l (processedMarkets ?st0)"
  have "expanding tid ?md ?c l (0 + length ?vs) (fold (addResult env args cm l) ?vs ?st0)"
    by (rule fold_addResult_expanding [OF e0])
  then have "stateInv tid ?md (stepBound ?c l (length ?vs)) (expandMarket env args k cm l ?st0)"
    by (simp add: expanding_def expandMarket_def)
  moreover have "stepBound ?c l (length ?vs) p lyr \<le> getMaxNodesForLayer lyr" for p lyr
    using length_sortedResults [of env args k cm l "processedMarkets ?st0"]
    by (simp add: stepBound_def)
  ultimately show ?thesis
    unfolding stateInv_def by (rule shapeInv_mono)
qed

lemma buildLoop_stateInv:
  "stateInv tid (maxDepth (params args)) cap st \<Longrightarrow>
   stateInv tid (maxDepth (params args)) cap (buildLoop env args k st)"
proof (induction env args k st rule: buildLoop.induct)
  case (1 env args k st)
  show ?case
  proof (cases "marketsToProcess st")
    case Nil
    with "1.prems" show ?thesis by (simp add: buildLoop_Nil)
  next
    case (Cons x rest)
    obtain cm l where x: "x = (cm, l)" by (cases x)
    show ?thesis
    proof (cases "l < MAX_DEPTH")
      case True
      have "stateInv tid (maxDepth (params args)) cap
              (expandMarket env args k cm l (st\<lparr>marketsToProcess := rest\<rparr>))"
        using "1.prems" Cons x True by (intro expandMarket_stateInv) simp_all
      from "1.IH" [OF Cons x [symmetric] True this] show ?thesis
        using Cons x True by (simp add: buildLoop_Cons)
    next
      case False
      with Cons x "1.prems" show ?thesis by (simp add: buildLoop_stop)
    qed
  qed
qed

lemma initialState_stateInv:
  "stateInv (market_id (triggerMarket args)) md cap (initialState args)"
  by (simp add: stateInv_def shapeInv_def initialState_def skel_def ends_def queueIds_def
        kids_def triggerNode_def nodeId_def)

lemma createSimulationScenario_stateInv:
  "shapeInv (market_id (triggerMarket args)) (maxDepth (params args)) cap
     (skel (nodes (createSimulationScenario env args)))
     (ends (edges (createSimulationScenario env args)))
     (processedMarkets (buildLoop env args 1 (initialState args)))
     (queueIds (marketsToProcess (buildLoop env args 1 (initialState args))))"
  using buildLoop_stateInv [where env = env and k = 1, OF initialState_stateInv]
  by (simp add: stateInv_def createSimulationScenario_def Let_def)

lemma in_ends: "(a, b) \<in> set (ends es) \<longleftrightarrow> (\<exists>e\<in>set es. sourceMarketId e = a \<and> targetMarketId e = b)"
  by (auto simp: ends_def)

lemma in_skel: "(x, l) \<in> set (skel ns) \<longleftrightarrow> (\<exists>n\<in>set ns. nodeId n = x \<and> layer n = l)"
  by (auto simp: skel_def)

lemma kids_childrenAt: "kids (skel ns) (ends es) p lyr = skel (childrenAt ns es p lyr)"
  by (simp add: kids_def skel_def childrenAt_def filter_map o_def in_ends)

lemma length_childrenAt: "length (childrenAt ns es p lyr) = length (kids (skel ns) (ends es) p lyr)"
  unfolding kids_childrenAt by (simp add: skel_def)

lemma shapeInv_graph:
  assumes "shapeInv tid md cap (skel ns) (ends es) P Q"
  shows "distinct (map nodeId ns)"
    and "\<And>e. e \<in> set es \<Longrightarrow>
           \<exists>s\<in>set ns. \<exists>t\<in>set ns. nodeId s = sourceMarketId e \<and> nodeId t = targetMarketId e
             \<and> layer t = Suc (layer s)"
    and "\<And>n. n \<in> set ns \<Longrightarrow> layer n \<le> 3 \<and> (0 < md \<longrightarrow> real (layer n) < md + 1)"
    and "\<And>p lyr. length (childrenAt ns es p lyr) \<le> getMaxNodesForLayer lyr"
    and "length (filter (\<lambda>n. layer n = 1) ns) \<le> 3"
proof -
  from assms have d: "distinct (map fst (skel ns))"
    and E: "\<And>a b. (a, b) \<in> set (ends es) \<Longrightarrow> \<exists>la. (a, la) \<in> set (skel ns) \<and> (b, Suc la) \<in> set (skel ns)"
    and N: "\<And>y l'. (y, l') \<in> set (skel ns) \<Longrightarrow>
              l' \<le> 3 \<and> (l' = 0 \<or> (0 < md \<longrightarrow> real l' < md + 1)) \<and>
              (l' = 1 \<longrightarrow> (tid, y) \<in> set (ends es)) \<and> (l' = 0 \<longrightarrow> y = tid)"
    and K: "\<And>p lyr. length (kids (skel ns) (ends es) p lyr) \<le> getMaxNodesForLayer lyr"
    unfolding shapeInv_def by blast+
  show "distinct (map nodeId ns)" using d by (simp add: skel_def o_def)
  show "\<exists>s\<in>set ns. \<exists>t\<in>set ns. nodeId s = sourceMarketId e \<and> nodeId t = targetMarketId e
             \<and> layer t = Suc (layer s)" if "e \<in> set es" for e
  proof -
    from that have "(sourceMarketId e, targetMarketId e) \<in> set (ends es)" by (auto simp: in_ends)
    from E [OF this] obtain la where "(sourceMarketId e, la) \<in> set (skel ns)"
      "(targetMarketId e, Suc la) \<in> set (skel ns)" by blast
    then show ?thesis unfolding in_skel by force
  qed
  show "layer n \<le> 3 \<and> (0 < md \<longrightarrow> real (layer n) < md + 1)" if "n \<in> set ns" for n
  proof -
    from that have "(nodeId n, layer n) \<in> set (skel ns)" unfolding in_skel by blast
    from N [OF this] show ?thesis by auto
  qed
  show K': "length (childrenAt ns es p lyr) \<le> getMaxNodesForLayer lyr" for p lyr
    using K [of p lyr] by (simp add: length_childrenAt)
  have "filter (\<lambda>n. layer n = 1) ns = childrenAt ns es tid 1"
    unfolding childrenAt_def
  proof (rule filter_cong [OF refl])
    fix n assume n: "n \<in> set ns"
    then have m: "(nodeId n, layer n) \<in> set (skel ns)" unfolding in_skel by blast
    show "(layer n = 1) = (layer n = 1 \<and> (\<exists>e\<in>set es. sourceMarketId e = tid \<and> targetMarketId e = nodeId n))"
      using N [OF m] by (auto simp: in_ends)
  qed
  with K' [of tid 1] show "length (filter (\<lambda>n. layer n = 1) ns) \<le> 3"
    by (simp add: getMaxNodesForLayer_def)
qed

lemma triggerFirst_updateFirst:
  assumes "triggerFirst args ns"
  shows "triggerFirst args (updateFirst P (\<lambda>n. n\<lparr>outgoingLinks := g n\<rparr>) (ns @ extra))"
proof (cases ns)
  case Nil
  with assms show ?thesis by (simp add: triggerFirst_def)
next
  case (Cons n rest)
  with assms show ?thesis by (cases "P n") (simp_all add: triggerFirst_def)
qed

lemma addResult_triggerFirst:
  "triggerFirst args (nodes st) \<Longrightarrow> triggerFirst args (nodes (addResult env args cm l v st))"
  by (cases rule: addResult_cases [of env args cm l v st]) (simp_all add: triggerFirst_updateFirst)

lemma buildLoop_calls_rule:
  assumes init: "I (nodes st) (edges st)"
      and sub: "set (expansions env args k st) \<subseteq> C"
      and step: "\<And>k cm l proc v st'. I (nodes st') (edges st') \<Longrightarrow> (k, cm, l, proc) \<in> C \<Longrightarrow>
                   v \<in> set (sortedResults env args k cm l proc) \<Longrightarrow>
                   I (nodes (addResult env args cm l v st')) (edges (addResult env args cm l v st'))"
  shows "I (nodes (buildLoop env args k st)) (edges (buildLoop env args k st))"
  using init sub step
proof (induction env args k st rule: buildLoop.induct)
  case (1 env args k st)
  have fold: "I (nodes (fold (addResult env args cm l) vs st')) (edges (fold (addResult env args cm l) vs st'))"
    if "I (nodes st') (edges st')" "set vs \<subseteq> set (sortedResults env args k cm l proc)"
       "(k, cm, l, proc) \<in> C"
    for cm l vs st' proc
    using that
  proof (induction vs arbitrary: st')
    case Nil
    then show ?case by simp
  next
    case (Cons v vs)
    from Cons.prems have "I (nodes (addResult env args cm l v st')) (edges (addResult env args cm l v st'))"
      by (intro "1.prems"(3) [of st' k cm l proc v]) simp_all
    from Cons.IH [OF this] Cons.prems(2,3) show ?case by simp
  qed
  show ?case
  proof (cases "marketsToProcess st")
    case Nil
    with "1.prems" show ?thesis by (simp add: buildLoop_Nil)
  next
    case (Cons x rest)
    obtain cm l where x: "x = (cm, l)" by (cases x)
    show ?thesis
    proof (cases "l < MAX_DEPTH")
      case True
      let ?st = "expandMarket env args k cm l (st\<lparr>marketsToProcess := rest\<rparr>)"
      have e: "expansions env args k st =
                 (k, cm, l, processedMarkets st) # expansions env args (Suc k) ?st"
        using Cons x True by (simp add: expansions_Cons)
      from "1.prems"(2) e have mem: "(k, cm, l, processedMarkets st) \<in> C"
        and sub': "set (expansions env args (Suc k) ?st) \<subseteq> C" by simp_all
      have "I (nodes ?st) (edges ?st)"
        unfolding expandMarket_def
        by (rule fold [where proc = "processedMarkets (st\<lparr>marketsToProcess := rest\<rparr>)"])
           (use "1.prems"(1) mem in simp_all)
      from "1.IH" [OF Cons x [symmetric] True this sub' "1.prems"(3)] show ?thesis
        using Cons x True by (simp add: buildLoop_Cons)
    next
      case False
      with Cons x "1.prems" show ?thesis by (simp add: buildLoop_stop)
    qed
  qed
qed

lemma buildLoop_rule:
  assumes init: "I (nodes st) (edges st)"
      and step: "\<And>k cm l proc v st'. I (nodes st') (edges st') \<Longrightarrow>
                   v \<in> set (sortedResults env args k cm l proc) \<Longrightarrow>
                   I (nodes (addResult env args cm l v st')) (edges (addResult env args cm l v st'))"
  shows "I (nodes (buildLoop env args k st)) (edges (buildLoop env args k st))"
  using init step
proof (induction env args k st rule: buildLoop.induct)
  case (1 env args k st)
  have fold: "I (nodes (fold (addResult env args cm l) vs st')) (edges (fold (addResult env args cm l) vs st'))"
    if "I (nodes st') (edges st')" "set vs \<subseteq> set (sortedResults env args k cm l proc)"
    for cm l vs st' proc
    using that
  proof (induction vs arbitrary: st')
    case Nil
    then show ?case by simp
  next
    case (Cons v vs)
    from Cons.prems have "I (nodes (addResult env args cm l v st')) (edges (addResult env args cm l v st'))"
      by (intro "1.prems"(2) [of st' v k cm l proc]) simp_all
    from Cons.IH [OF this] Cons.prems(2) show ?case by simp
  qed
  show ?case
  proof (cases "marketsToProcess st")
    case Nil
    with "1.prems" show ?thesis by (simp add: buildLoop_Nil)
  next
    case (Cons x rest)
    obtain cm l where x: "x = (cm, l)" by (cases x)
    show ?thesis
    proof (cases "l < MAX_DEPTH")
      case True
      have "I (nodes (expandMarket env args k cm l (st\<lparr>marketsToProcess := rest\<rparr>)))
              (edges (expandMarket env args k cm l (st\<lparr>marketsToProcess := rest\<rparr>)))"
        unfolding expandMarket_def
        by (rule fold [where proc = "processedMarkets (st\<lparr>marketsToProcess := rest\<rparr>)"])
           (use "1.prems"(1) in simp_all)
      from "1.IH" [OF Cons x [symmetric] True this "1.prems"(2)] show ?thesis
        using Cons x True by (simp add: buildLoop_Cons)
    next
      case False
      with Cons x "1.prems" show ?thesis by (simp add: buildLoop_stop)
    qed
  qed
qed

lemma createSimulationScenario_triggerFirst:
  "triggerFirst args (nodes (createSimulationScenario env args))"
proof -
  have "triggerFirst args (nodes (buildLoop env args 1 (initialState args)))"
  proof (rule buildLoop_rule [where I = "\<lambda>ns es. triggerFirst args ns"])
    show "triggerFirst args (nodes (initialState args))"
      by (simp add: initialState_def triggerFirst_def triggerNode_def)
  qed (rule addResult_triggerFirst)
  then show ?thesis by (simp add: createSimulationScenario_def Let_def)
qed

section \<open>The concrete run, evaluated\<close>

lemma demo_align_A:
  "alignPriceSeries demoSeries demoSeries =
     \<lparr>prices1 = demoPrices, prices2 = demoPrices,
      timestamps = [0, 7200, 14400, 21600, 28800, 36000, 43200, 50400, 57600, 64800]\<rparr>"
  by (simp add: alignPriceSeries_def demoSeries_def demoPrices_def TOLERANCE_def)

lemma demo_align_C:
  "alignPriceSeries demoSeries demoSeriesC =
     \<lparr>prices1 = demoPrices, prices2 = demoPricesC,
      timestamps = [0, 7200, 14400, 21600, 28800, 36000, 43200, 50400, 57600, 64800]\<rparr>"
  by (simp add: alignPriceSeries_def demoSeries_def demoSeriesC_def demoPrices_def demoPricesC_def TOLERANCE_def)

lemma demo_corr_A: "calculateCorrelation exact demoPrices demoPrices = 1"
proof (rule calculateCorrelation_self)
  show "10 \<le> length demoPrices" by (simp add: demoPrices_def)
  show "\<exists>a\<in>set demoPrices. \<exists>b\<in>set demoPrices. a \<noteq> b"
    unfolding demoPrices_def by (rule bexI [of _ "1/4"], rule bexI [of _ "3/4"]) simp_all
qed

lemma upt_10: "[0..<10] = [0, 1, 2, 3, 4, 5, 6, 7, 8, 9]"
  by (simp add: upt_rec)

lemma demo_corr_C: "calculateCorrelation exact demoPrices demoPricesC = 0"
proof -
  have m1: "foldl (\<lambda>sum p. sum + p) 0 demoPrices / real (length demoPrices) = 1/2"
    by (simp add: demoPrices_def)
  have m2: "foldl (\<lambda>sum p. sum + p) 0 demoPricesC / real (length demoPrices) = 1/2"
    by (simp add: demoPrices_def demoPricesC_def)
  have len: "length demoPrices = 10" "length demoPricesC = 10"
    by (simp_all add: demoPrices_def demoPricesC_def)
  have L: "corrLoop exact demoPrices demoPricesC (1/2) (1/2) [0..<10] = (0, 5/8, 1/2)"
    unfolding upt_10 by (simp add: corrLoop_exact demoPrices_def demoPricesC_def)
  show ?thesis
    unfolding calculateCorrelation_exact Let_def m1 m2
    by (simp add: len L)
qed

lemma demo_tokens:
  "extractTokenId demoEnv demoT = Some ''101''"
  "extractTokenId demoEnv demoA = Some ''102''"
  "extractTokenId demoEnv demoB = None"
  "extractTokenId demoEnv demoC = Some ''103''"
  by (simp_all add: extractTokenId_def demoEnv_def demoT_def demoA_def demoB_def demoC_def)

lemma demo_ids:
  "market_id demoT = ''t''" "market_id demoA = ''a''" "market_id demoB = ''b''" "market_id demoC = ''c''"
  by (simp_all add: demoT_def demoA_def demoB_def demoC_def)

lemma demo_triggerPriceHistory: "triggerPriceHistory demoEnv demoArgs = demoSeries"
  by (simp add: triggerPriceHistory_def demoArgs_def demo_tokens) (simp add: demoEnv_def)

lemma demo_length: "length demoSeries = 10" "length demoSeriesC = 10" "length demoPrices = 10"
  by (simp_all add: demoSeries_def demoSeriesC_def demoPrices_def)

lemma demo_find:
  "find (\<lambda>m. market_id m = ''a'') (availableMarkets demoArgs) = Some demoA"
  "find (\<lambda>m. market_id m = ''b'') (availableMarkets demoArgs) = Some demoB"
  "find (\<lambda>m. market_id m = ''c'') (availableMarkets demoArgs) = Some demoC"
  by (simp_all add: demoArgs_def demoA_def demoB_def demoC_def)

lemma demo_history:
  "getPriceHistory demoEnv k j ''102'' = demoSeries"
  "getPriceHistory demoEnv k j ''103'' = demoSeriesC"
  "rounding demoEnv = exact"
  by (simp_all add: demoEnv_def)

lemma demo_cands:
  "marketId demoCandA = ''a''" "marketId demoCandB = ''b''" "marketId demoCandC = ''c''"
  "strength demoCandA = 3/5" "strength demoCandC = 9/10"
  by (simp_all add: demoCandA_def demoCandB_def demoCandC_def)

lemma demo_validate_A:
  "validateResult demoEnv demoArgs k j {''t''} demoCandA = Some demoValidatedA"
  by (simp add: validateResult_def demo_cands demo_find demo_tokens
        demo_triggerPriceHistory demo_history demo_length demo_align_A demo_corr_A
        demoValidatedA_def Let_def demo_ids)
     (simp add: demoCandA_def)

lemma demo_validate_B:
  "validateResult demoEnv demoArgs k j {''t''} demoCandB = Some (downgraded demoCandB)"
  by (simp add: validateResult_def demo_cands demo_find demo_tokens demo_ids)

lemma demo_validate_C:
  "validateResult demoEnv demoArgs k j {''t''} demoCandC = None"
  by (simp add: validateResult_def demo_cands demo_find demo_tokens
        demo_triggerPriceHistory demo_history demo_length demo_align_C demo_corr_C
        Let_def demo_ids)

lemma demo_generator:
  "findInterestingCausalMarkets demoEnv k demoT outcome pool = demoCandidates"
  "findInterestingCausalMarkets demoEnv k demoA outcome pool = []"
  by (simp_all add: demoEnv_def demo_ids)

lemma demo_causalResults:
  "causalResults demoEnv demoArgs k demoT proc = demoCandidates"
  "causalResults demoEnv demoArgs k demoA proc = []"
  by (simp_all add: causalResults_def demo_generator)

lemma demo_validatedResults:
  "validatedResults demoEnv demoArgs k demoT {''t''} = [demoValidatedA, downgraded demoCandB]"
  unfolding validatedResults_def demo_causalResults
  by (simp add: demoCandidates_def List.map_filter_def enumerate_eq_zip upt_rec
        demo_validate_A demo_validate_B demo_validate_C)

lemma demo_sortedResults:
  "sortedResults demoEnv demoArgs k demoT 0 {''t''} = [demoValidatedA]"
  unfolding sortedResults_def Let_def demo_validatedResults
  by (simp add: demoValidatedA_def downgraded_def getMaxNodesForLayer_def)

lemma demo_sortedResults_A:
  "sortedResults demoEnv demoArgs k demoA l proc = []"
  unfolding sortedResults_def validatedResults_def Let_def demo_causalResults
  by (simp add: List.map_filter_def)

lemma demo_triggerPrice: "triggerPrice demoArgs = 1/5"
  by (simp add: triggerPrice_def demoArgs_def demoT_def indexOf_def elemAt_def orElse_def truthy_def)

lemma demo_historical: "historical demoValidatedA = Some 1"
  by (simp add: historical_def demoValidatedA_def truthy_def)

lemma demo_edgeFor: "edgeFor demoEnv demoArgs demoT demoA demoValidatedA = demoEdge"
  by (simp add: edgeFor_def demo_historical confidenceOf_def demo_ids demo_triggerPriceHistory
        demo_length demoEdge_def)
     (simp add: demoValidatedA_def)

lemma demo_nodeFor:
  "nodeFor demoEnv demoArgs demoT 0 demoA demoValidatedA = demoNodeA"
proof -
  have cur: "orElse (elemAt (outcomePrices demoA) (Some 0)) 0.5 = 1/2"
    by (simp add: demoA_def elemAt_def orElse_def truthy_def)
  have dir: "directionOf demoValidatedA = - 1"
    by (simp add: directionOf_def demo_historical) (simp add: demoValidatedA_def)
  have mag: "changeMagnitude demoArgs demoValidatedA = 2/5"
    by (simp add: changeMagnitude_def demo_historical demo_triggerPrice)
  show ?thesis
    unfolding nodeFor_def Let_def cur dir mag demo_edgeFor
    by (simp add: impactLevelOf_def demoNodeA_def)
qed

lemma demo_fields:
  "marketId demoValidatedA = ''a''" "strength demoValidatedA = 4/5"
  "maxDepth (params demoArgs) = 3"
  by (simp_all add: demoValidatedA_def demoArgs_def)

lemma demo_run: "createSimulationScenario demoEnv demoArgs = demoGraph"
proof -
  let ?st1 = "\<lparr>nodes = nodes demoGraph, edges = edges demoGraph,
               processedMarkets = {''a'', ''t''}, marketsToProcess = [(demoA, 1)]\<rparr>"
  have init: "initialState demoArgs =
     \<lparr>nodes = [triggerNode demoArgs], edges = [], processedMarkets = {''t''},
      marketsToProcess = [(demoT, 0)]\<rparr>"
    by (simp add: initialState_def demoArgs_def demo_ids)
  have tn: "triggerNode demoArgs =
     \<lparr>market = demoT, currentProbability = 1/5, predictedProbability = 1,
          probabilityChange = 4/5, percentChange = 100, layer = 0, impactLevel = high,
          incomingLinks = [], outgoingLinks = []\<rparr>"
    by (simp add: triggerNode_def demo_triggerPrice) (simp add: demoArgs_def)
  have add: "addResult demoEnv demoArgs demoT 0 demoValidatedA
               \<lparr>nodes = [triggerNode demoArgs], edges = [], processedMarkets = {''t''},
                marketsToProcess = []\<rparr> = ?st1"
    by (simp add: addResult_def Let_def demo_fields demo_find demo_ids demo_nodeFor demo_edgeFor)
       (simp add: tn nodeId_def demoGraph_def demoNodeT_def demoNodeA_def demo_ids)
  have e1: "expandMarket demoEnv demoArgs k demoT 0
              \<lparr>nodes = [triggerNode demoArgs], edges = [], processedMarkets = {''t''},
                marketsToProcess = []\<rparr> = ?st1" for k
    unfolding expandMarket_def by (simp add: demo_sortedResults add)
  have e2: "expandMarket demoEnv demoArgs k demoA l st = st" for k l st
    unfolding expandMarket_def by (simp add: demo_sortedResults_A)
  have "buildLoop demoEnv demoArgs 1 (initialState demoArgs)
          = buildLoop demoEnv demoArgs (Suc 1) ?st1"
    unfolding init
    by (subst buildLoop_Cons [of _ demoT 0 "[]"]) (simp_all add: MAX_DEPTH_def e1)
  also have "\<dots> = buildLoop demoEnv demoArgs (Suc (Suc 1)) (?st1\<lparr>marketsToProcess := []\<rparr>)"
    by (subst buildLoop_Cons [of _ demoA 1 "[]"]) (simp_all add: MAX_DEPTH_def e2)
  also have "\<dots> = ?st1\<lparr>marketsToProcess := []\<rparr>"
    by (rule buildLoop_Nil) simp
  finally have "buildLoop demoEnv demoArgs 1 (initialState demoArgs) = ?st1\<lparr>marketsToProcess := []\<rparr>" .
  then show ?thesis
    by (simp add: createSimulationScenario_def Let_def demoGraph_def)
qed

lemma demo_calls:
  "calls demoEnv demoArgs = [(1, demoT, 0, {''t''}), (Suc 1, demoA, 1, {''a'', ''t''})]"
proof -
  let ?st1 = "\<lparr>nodes = nodes demoGraph, edges = edges demoGraph,
               processedMarkets = {''a'', ''t''}, marketsToProcess = [(demoA, 1)]\<rparr>"
  have init: "initialState demoArgs =
     \<lparr>nodes = [triggerNode demoArgs], edges = [], processedMarkets = {''t''},
      marketsToProcess = [(demoT, 0)]\<rparr>"
    by (simp add: initialState_def demoArgs_def demo_ids)
  have tn: "triggerNode demoArgs =
     \<lparr>market = demoT, currentProbability = 1/5, predictedProbability = 1,
          probabilityChange = 4/5, percentChange = 100, layer = 0, impactLevel = high,
          incomingLinks = [], outgoingLinks = []\<rparr>"
    by (simp add: triggerNode_def demo_triggerPrice) (simp add: demoArgs_def)
  have add: "addResult demoEnv demoArgs demoT 0 demoValidatedA
               \<lparr>nodes = [triggerNode demoArgs], edges = [], processedMarkets = {''t''},
                marketsToProcess = []\<rparr> = ?st1"
    by (simp add: addResult_def Let_def demo_fields demo_find demo_ids demo_nodeFor demo_edgeFor)
       (simp add: tn nodeId_def demoGraph_def demoNodeT_def demoNodeA_def demo_ids)
  have e1: "expandMarket demoEnv demoArgs k demoT 0
              \<lparr>nodes = [triggerNode demoArgs], edges = [], processedMarkets = {''t''},
                marketsToProcess = []\<rparr> = ?st1" for k
    unfolding expandMarket_def by (simp add: demo_sortedResults add)
  have e2: "expandMarket demoEnv demoArgs k demoA l st = st" for k l st
    unfolding expandMarket_def by (simp add: demo_sortedResults_A)
  have x1: "expansions demoEnv demoArgs 1 (initialState demoArgs)
          = (1, demoT, 0, {''t''}) # expansions demoEnv demoArgs (Suc 1) ?st1"
    unfolding init
    by (subst expansions_Cons [of _ demoT 0 "[]"]) (simp_all add: MAX_DEPTH_def e1)
  have x2: "expansions demoEnv demoArgs (Suc 1) ?st1
          = (Suc 1, demoA, 1, {''a'', ''t''}) #
            expansions demoEnv demoArgs (Suc (Suc 1)) (?st1\<lparr>marketsToProcess := []\<rparr>)"
    by (subst expansions_Cons [of _ demoA 1 "[]"]) (simp_all add: MAX_DEPTH_def e2)
  have x3: "expansions demoEnv demoArgs (Suc (Suc 1)) (?st1\<lparr>marketsToProcess := []\<rparr>) = []"
    by (rule expansions_Nil) simp
  show ?thesis unfolding calls_def x1 x2 x3 by (rule refl)
qed

lemma demo_proposed:
  "proposed demoEnv demoArgs 1 0 demoT 0 {''t''} demoCandA"
  "proposed demoEnv demoArgs 1 2 demoT 0 {''t''} demoCandC"
  by (simp_all add: proposed_def demo_calls demo_causalResults demoCandidates_def)

lemma demo_graph_facts:
  "demoEdge \<in> set (edges demoGraph)"
  "demoNodeA \<in> set (nodes demoGraph)"
  "layer demoNodeA = 1" "layer demoNodeA \<noteq> 0"
  "nodeId demoNodeA = ''a''"
  "currentProbability demoNodeA = 1/2"
  "predictedProbability demoNodeA = 1/10"
  by (simp_all add: demoGraph_def demoNodeA_def nodeId_def demo_ids)

lemma demo_alignedCorrelation:
  "alignedCorrelation demoEnv demoArgs k j ''102'' = 1"
  "alignedCorrelation demoEnv demoArgs k j ''103'' = 0"
  by (simp_all add: alignedCorrelation_def demo_triggerPriceHistory demo_history
        demo_align_A demo_align_C demo_corr_A demo_corr_C)

lemma demo_propagate:
  "propagateProbabilities (nodes demoGraph) (edges demoGraph)
     = [demoNodeT, demoNodeA\<lparr>predictedProbability := 99/100, probabilityChange := 49/100,
                               percentChange := 98, impactLevel := high\<rparr>]"
proof -
  have s: "sort_key layer (nodes demoGraph) = [demoNodeT, demoNodeA]"
    by (simp add: demoGraph_def demoNodeT_def demoNodeA_def)
  have l: "layer demoNodeT = 0" "layer demoNodeA = 1" "nodeId demoNodeT = ''t''" "nodeId demoNodeA = ''a''"
    by (simp_all add: demoNodeT_def demoNodeA_def nodeId_def demo_ids)
  have e: "edges demoGraph = [demoEdge]" "targetMarketId demoEdge = ''a''" "sourceMarketId demoEdge = ''t''"
     "direction demoEdge = ''increase''" "link_strength demoEdge = 4/5" "confidenceLevel demoEdge = HIGH"
    by (simp_all add: demoGraph_def demoEdge_def)
  have p: "predictedProbability demoNodeT = 1" "currentProbability demoNodeT = 1/5" "currentProbability demoNodeA = 1/2"
    by (simp_all add: demoNodeT_def demoNodeA_def)
  have u: "[0..<2] = [0, 1]" "[1..<2] = [1]" by (simp_all add: upt_rec)
  show ?thesis
    unfolding propagateProbabilities_def Let_def s
    by (simp add: l e p u propagateLayer_def propagateNode_def addInfluence_def confidenceWeight_def
          impactLevelOf_def Let_def upt_rec)
qed

section \<open>Propagation leaves the trigger and the nodes without incoming edges alone\<close>

lemma clamp_bounds: "0.01 \<le> max 0.01 (min 0.99 (x::real)) \<and> max 0.01 (min 0.99 x) \<le> 0.99"
  by auto

lemma propagated_refl: "propagated es s s"
  by (simp add: propagated_def)

lemma length_propagateNode: "length (propagateNode es i st) = length st"
  by (simp add: propagateNode_def Let_def split: prod.splits)

lemma propagateNode_other: "j \<noteq> i \<Longrightarrow> propagateNode es i st ! j = st ! j"
  by (simp add: propagateNode_def Let_def split: prod.splits)

lemma propagateNode_self:
  assumes "i < length st"
  shows "propagateNode es i st ! i = st ! i \<or>
         ((\<exists>e\<in>set es. targetMarketId e = nodeId (st ! i)) \<and>
          market (propagateNode es i st ! i) = market (st ! i) \<and>
          layer (propagateNode es i st ! i) = layer (st ! i) \<and>
          0.01 \<le> predictedProbability (propagateNode es i st ! i) \<and>
          predictedProbability (propagateNode es i st ! i) \<le> 0.99)"
proof (cases "filter (\<lambda>e. targetMarketId e = nodeId (st ! i)) es = []")
  case True
  then show ?thesis by (simp add: propagateNode_def Let_def)
next
  case nonempty: False
  then have ex: "\<exists>e\<in>set es. targetMarketId e = nodeId (st ! i)"
    by (auto simp: filter_empty_conv)
  obtain ti tw where f: "fold (addInfluence st) (filter (\<lambda>e. targetMarketId e = nodeId (st ! i)) es) (0, 0) = (ti, tw)"
    by (cases "fold (addInfluence st) (filter (\<lambda>e. targetMarketId e = nodeId (st ! i)) es) (0, 0)") auto
  show ?thesis
  proof (cases "tw > 0")
    case True
    define newProbability where
      "newProbability = max 0.01 (min 0.99 (currentProbability (st ! i) + ti / tw))"
    define change where "change = newProbability - currentProbability (st ! i)"
    define percent where "percent = (change / currentProbability (st ! i)) * 100"
    have "propagateNode es i st =
            st[i := (st ! i)\<lparr>predictedProbability := newProbability,
                               probabilityChange := change,
                               percentChange := percent,
                               impactLevel := impactLevelOf percent\<rparr>]"
      using nonempty f True
      by (simp add: propagateNode_def Let_def newProbability_def change_def percent_def)
    then have "propagateNode es i st ! i =
            (st ! i)\<lparr>predictedProbability := newProbability,
                        probabilityChange := change,
                        percentChange := percent,
                        impactLevel := impactLevelOf percent\<rparr>"
      using assms by simp
    moreover have "0.01 \<le> newProbability \<and> newProbability \<le> 0.99"
      unfolding newProbability_def by (rule clamp_bounds)
    ultimately show ?thesis using ex by simp
  next
    case False
    with f show ?thesis by (simp add: propagateNode_def Let_def)
  qed
qed

lemma propagateNode_propagated:
  assumes p: "propagated es s st" and i: "i < length s" and l: "layer (s ! i) \<noteq> 0"
  shows "propagated es s (propagateNode es i st)"
proof -
  from p have len: "length st = length s" by (simp add: propagated_def)
  have "market (propagateNode es i st ! j) = market (s ! j) \<and>
        layer (propagateNode es i st ! j) = layer (s ! j) \<and>
        (propagateNode es i st ! j = s ! j \<or>
         (layer (s ! j) \<noteq> 0 \<and> (\<exists>e\<in>set es. targetMarketId e = nodeId (s ! j)) \<and>
          0.01 \<le> predictedProbability (propagateNode es i st ! j) \<and>
          predictedProbability (propagateNode es i st ! j) \<le> 0.99))" if j: "j < length s" for j
  proof (cases "j = i")
    case False
    with p j show ?thesis by (simp add: propagateNode_other propagated_def)
  next
    case True
    from p i have m: "market (st ! i) = market (s ! i)" "layer (st ! i) = layer (s ! i)"
      and d: "st ! i = s ! i \<or>
         (layer (s ! i) \<noteq> 0 \<and> (\<exists>e\<in>set es. targetMarketId e = nodeId (s ! i)) \<and>
          0.01 \<le> predictedProbability (st ! i) \<and> predictedProbability (st ! i) \<le> 0.99)"
      by (simp_all add: propagated_def)
    have n: "nodeId (st ! i) = nodeId (s ! i)" using m by (simp add: nodeId_def)
    from i len have "i < length st" by simp
    from propagateNode_self [OF this, of es] show ?thesis
    proof
      assume "propagateNode es i st ! i = st ! i"
      with m d True show ?thesis by auto
    next
      assume "(\<exists>e\<in>set es. targetMarketId e = nodeId (st ! i)) \<and>
          market (propagateNode es i st ! i) = market (st ! i) \<and>
          layer (propagateNode es i st ! i) = layer (st ! i) \<and>
          0.01 \<le> predictedProbability (propagateNode es i st ! i) \<and>
          predictedProbability (propagateNode es i st ! i) \<le> 0.99"
      with m n l True show ?thesis by auto
    qed
  qed
  then show ?thesis using len by (simp add: propagated_def length_propagateNode)
qed

lemma fold_propagateNode_propagated:
  "propagated es s st \<Longrightarrow> \<forall>i\<in>set idxs. i < length s \<and> layer (s ! i) \<noteq> 0 \<Longrightarrow>
   propagated es s (fold (propagateNode es) idxs st)"
  by (induction idxs arbitrary: st) (simp_all add: propagateNode_propagated)

lemma propagateLayer_propagated:
  assumes "propagated es s st" "lyr \<noteq> 0"
  shows "propagated es s (propagateLayer es lyr st)"
  unfolding propagateLayer_def Let_def
proof (rule fold_propagateNode_propagated [OF assms(1)])
  show "\<forall>i\<in>set (filter (\<lambda>i. layer (st ! i) = lyr) [0..<length st]). i < length s \<and> layer (s ! i) \<noteq> 0"
    using assms by (auto simp: propagated_def)
qed

lemma fold_propagateLayer_propagated:
  "propagated es s st \<Longrightarrow> 0 \<notin> set lyrs \<Longrightarrow> propagated es s (fold (propagateLayer es) lyrs st)"
  by (induction lyrs arbitrary: st) (auto simp: propagateLayer_propagated)

lemma propagateProbabilities_propagated:
  "propagated es (sort_key layer ns) (propagateProbabilities ns es)"
  unfolding propagateProbabilities_def Let_def
  by (rule fold_propagateLayer_propagated) (simp_all add: propagated_refl)

text \<open>
  C8. \<open>propagateProbabilities\<close> returns the nodes sorted by layer. Every layer-0 node and
  every node that no edge targets is returned exactly as it was (so its predicted
  probability, probability change, percent change and impact level are unchanged), and
  every node that was changed carries a predicted probability within [0.01, 0.99].
\<close>

theorem propagateProbabilities_frame:
  "length (propagateProbabilities ns es) = length ns \<and>
   (\<forall>i<length ns.
      (layer (sort_key layer ns ! i) = 0 \<or>
       (\<forall>e\<in>set es. targetMarketId e \<noteq> nodeId (sort_key layer ns ! i))
         \<longrightarrow> propagateProbabilities ns es ! i = sort_key layer ns ! i) \<and>
      (propagateProbabilities ns es ! i = sort_key layer ns ! i \<or>
       (0.01 \<le> predictedProbability (propagateProbabilities ns es ! i) \<and>
        predictedProbability (propagateProbabilities ns es ! i) \<le> 0.99))) \<and>
   (\<forall>n\<in>set ns. layer n = 0 \<or> (\<forall>e\<in>set es. targetMarketId e \<noteq> nodeId n)
        \<longrightarrow> n \<in> set (propagateProbabilities ns es))"
proof -
  let ?s = "sort_key layer ns" and ?out = "propagateProbabilities ns es"
  have p: "propagated es ?s ?out" by (rule propagateProbabilities_propagated)
  then have len: "length ?out = length ns" by (simp add: propagated_def)
  have a: "\<forall>i<length ns.
      (layer (?s ! i) = 0 \<or> (\<forall>e\<in>set es. targetMarketId e \<noteq> nodeId (?s ! i)) \<longrightarrow> ?out ! i = ?s ! i) \<and>
      (?out ! i = ?s ! i \<or>
       (0.01 \<le> predictedProbability (?out ! i) \<and> predictedProbability (?out ! i) \<le> 0.99))"
    using p by (auto simp: propagated_def)
  have b: "n \<in> set ?out" if n: "n \<in> set ns" and c: "layer n = 0 \<or> (\<forall>e\<in>set es. targetMarketId e \<noteq> nodeId n)" for n
  proof -
    from n have "n \<in> set ?s" by simp
    then obtain i where i: "i < length ?s" "?s ! i = n" unfolding in_set_conv_nth by blast
    then have "i < length ns" by simp
    with a i c have "?out ! i = n" by auto
    moreover have "i < length ?out" using len i by simp
    ultimately show ?thesis by (auto simp: in_set_conv_nth)
  qed
  show ?thesis using len a b by blast
qed

theorem propagateProbabilities_frame_witness:
  "propagateProbabilities (nodes demoGraph) (edges demoGraph) ! 0 = demoNodeT \<and>
   predictedProbability (propagateProbabilities (nodes demoGraph) (edges demoGraph) ! 1) = 99/100"
proof -
  have s: "sort_key layer (nodes demoGraph) = [demoNodeT, demoNodeA]"
    by (simp add: demoGraph_def demoNodeT_def demoNodeA_def)
  have "0 < length (nodes demoGraph)" by (simp add: demoGraph_def)
  moreover have "layer (sort_key layer (nodes demoGraph) ! 0) = 0"
    unfolding s by (simp add: demoNodeT_def)
  ultimately have "propagateProbabilities (nodes demoGraph) (edges demoGraph) ! 0
          = sort_key layer (nodes demoGraph) ! 0"
    using propagateProbabilities_frame [of "nodes demoGraph" "edges demoGraph"] by blast
  then have "propagateProbabilities (nodes demoGraph) (edges demoGraph) ! 0 = demoNodeT"
    unfolding s by simp
  then show ?thesis by (simp add: demo_propagate)
qed

section \<open>Shape of the built graph\<close>

text \<open>
  C5. Every graph returned by the builder has pairwise distinct node market ids, every
  edge's source and target market id is the id of some node, and the first node is the
  trigger node (the trigger market at layer 0 with predicted probability 1.0), with only
  its list of outgoing links filled in.
\<close>

theorem builder_graph_shape:
  "distinct (map nodeId (nodes (createSimulationScenario env args))) \<and>
   (\<forall>e\<in>set (edges (createSimulationScenario env args)).
      sourceMarketId e \<in> nodeId ` set (nodes (createSimulationScenario env args)) \<and>
      targetMarketId e \<in> nodeId ` set (nodes (createSimulationScenario env args))) \<and>
   (\<exists>outgoing rest.
      nodes (createSimulationScenario env args)
        = (triggerNode args)\<lparr>outgoingLinks := outgoing\<rparr> # rest) \<and>
   market (triggerNode args) = triggerMarket args \<and> layer (triggerNode args) = 0 \<and>
   predictedProbability (triggerNode args) = 1"
proof -
  note S = createSimulationScenario_stateInv [of args env]
  have 1: "distinct (map nodeId (nodes (createSimulationScenario env args)))"
    by (rule shapeInv_graph(1) [OF S])
  have 2: "sourceMarketId e \<in> nodeId ` set (nodes (createSimulationScenario env args)) \<and>
      targetMarketId e \<in> nodeId ` set (nodes (createSimulationScenario env args))"
    if "e \<in> set (edges (createSimulationScenario env args))" for e
    using shapeInv_graph(2) [OF S that] by force
  have 3: "\<exists>outgoing rest. nodes (createSimulationScenario env args)
        = (triggerNode args)\<lparr>outgoingLinks := outgoing\<rparr> # rest"
  proof (cases "nodes (createSimulationScenario env args)")
    case Nil
    with createSimulationScenario_triggerFirst [of args env] show ?thesis
      by (simp add: triggerFirst_def)
  next
    case (Cons n rest)
    with createSimulationScenario_triggerFirst [of args env]
    have h: "n\<lparr>outgoingLinks := []\<rparr> = triggerNode args" by (simp add: triggerFirst_def)
    have "(triggerNode args)\<lparr>outgoingLinks := outgoingLinks n\<rparr> = n"
      by (simp add: h [symmetric])
    with Cons show ?thesis by metis
  qed
  show ?thesis using 1 2 3 by (simp add: triggerNode_def)
qed

theorem builder_graph_shape_witness:
  "distinct (map nodeId (nodes demoGraph)) \<and>
   sourceMarketId demoEdge \<in> nodeId ` set (nodes demoGraph) \<and>
   targetMarketId demoEdge \<in> nodeId ` set (nodes demoGraph)"
  using builder_graph_shape [of demoEnv demoArgs, unfolded demo_run] demo_graph_facts(1) by blast

text \<open>
  C4. In every graph returned by the builder, layer 1 holds at most 3 nodes, every parent
  has at most 2 children in layer 2 and at most 1 child in layer 3, and no node lies above
  layer \<open>MAX_DEPTH\<close> = 3, the depth limit of the loop; moreover, for a positive
  \<open>params.maxDepth\<close> every layer is below \<open>params.maxDepth + 1\<close>.
\<close>

theorem builder_fanout_bounds:
  "length (filter (\<lambda>n. layer n = 1) (nodes (createSimulationScenario env args))) \<le> 3 \<and>
   (\<forall>parent. length (childrenAt (nodes (createSimulationScenario env args))
                       (edges (createSimulationScenario env args)) parent 2) \<le> 2) \<and>
   (\<forall>parent. length (childrenAt (nodes (createSimulationScenario env args))
                       (edges (createSimulationScenario env args)) parent 3) \<le> 1) \<and>
   (\<forall>n\<in>set (nodes (createSimulationScenario env args)).
      layer n \<le> MAX_DEPTH \<and>
      (0 < maxDepth (params args) \<longrightarrow> real (layer n) < maxDepth (params args) + 1))"
proof -
  note S = createSimulationScenario_stateInv [of args env]
  have a: "length (childrenAt (nodes (createSimulationScenario env args))
                       (edges (createSimulationScenario env args)) parent 2) \<le> 2" for parent
    using shapeInv_graph(4) [OF S, of parent 2] by (simp add: getMaxNodesForLayer_def)
  have b: "length (childrenAt (nodes (createSimulationScenario env args))
                       (edges (createSimulationScenario env args)) parent 3) \<le> 1" for parent
    using shapeInv_graph(4) [OF S, of parent 3] by (simp add: getMaxNodesForLayer_def)
  show ?thesis
    using shapeInv_graph(5) [OF S] shapeInv_graph(3) [OF S] a b
    by (simp add: MAX_DEPTH_def)
qed

theorem builder_fanout_bounds_witness:
  "length (filter (\<lambda>n. layer n = 1) (nodes demoGraph)) \<le> 3 \<and>
   length (childrenAt (nodes demoGraph) (edges demoGraph) ''t'' 2) \<le> 2 \<and>
   layer demoNodeA \<le> MAX_DEPTH \<and>
   real (layer demoNodeA) < maxDepth (params demoArgs) + 1"
proof -
  have "0 < maxDepth (params demoArgs)" by (simp add: demo_fields)
  with builder_fanout_bounds [of demoEnv demoArgs, unfolded demo_run] demo_graph_facts(2) show ?thesis by blast
qed

section \<open>The built graph is layered, hence acyclic\<close>

lemma dfs_layered:
  fixes L :: "string \<Rightarrow> nat"
  shows "(\<forall>e\<in>set es. L (targetMarketId e) = Suc (L (sourceMarketId e)) \<and> L (targetMarketId e) \<le> 3) \<Longrightarrow>
         L ident \<le> 3 \<Longrightarrow> 3 - L ident < fuel \<Longrightarrow> (\<forall>s\<in>recursionStack st. L s < L ident) \<Longrightarrow>
           \<exists>st'. dfs fuel es ident path st = Some st' \<and> loops st' = loops st \<and>
                 recursionStack st' = recursionStack st"
    and "(\<forall>e\<in>set es. L (targetMarketId e) = Suc (L (sourceMarketId e)) \<and> L (targetMarketId e) \<le> 3) \<Longrightarrow>
         set outgoing \<subseteq> set es \<Longrightarrow> (\<forall>e\<in>set outgoing. L (sourceMarketId e) = Lc) \<Longrightarrow>
         3 - Lc \<le> fuel \<Longrightarrow> (\<forall>s\<in>recursionStack st. L s \<le> Lc) \<Longrightarrow>
           \<exists>st'. dfsOutgoing fuel es path outgoing st = Some st' \<and> loops st' = loops st \<and>
                 recursionStack st' = recursionStack st"
proof (induction fuel es ident path st and fuel es path outgoing st
        arbitrary: and Lc rule: dfs_dfsOutgoing.induct)
  case (1 es ident path st)
  then show ?case by simp
next
  case (2 fuel es ident path st)
  let ?st1 = "st\<lparr>visited := insert ident (visited st),
                   recursionStack := insert ident (recursionStack st)\<rparr>"
  let ?out = "filter (\<lambda>e. sourceMarketId e = ident) es"
  have "\<exists>st'. dfsOutgoing fuel es (path @ [ident]) ?out ?st1 = Some st' \<and> loops st' = loops ?st1 \<and>
                 recursionStack st' = recursionStack ?st1"
  proof (rule "2.IH" [OF refl refl refl "2.prems"(1), of "L ident"])
    show "set ?out \<subseteq> set es" by auto
    show "\<forall>e\<in>set ?out. L (sourceMarketId e) = L ident" by auto
    show "3 - L ident \<le> fuel" using "2.prems"(3) by simp
    show "\<forall>s\<in>recursionStack ?st1. L s \<le> L ident" using "2.prems"(4) by auto
  qed
  then obtain st2 where st2: "dfsOutgoing fuel es (path @ [ident]) ?out ?st1 = Some st2"
    "loops st2 = loops st" "recursionStack st2 = insert ident (recursionStack st)" by auto
  have "ident \<notin> recursionStack st" using "2.prems"(4) by auto
  then have "recursionStack st2 - {ident} = recursionStack st" using st2(3) by auto
  with st2 show ?case by (simp add: Let_def)
next
  case (3 fuel es path st)
  then show ?case by simp
next
  case (4 fuel es path edge outgoing st)
  let ?t = "targetMarketId edge"
  note lay = "4.prems"(1)
  from "4.prems" have e: "edge \<in> set es" and src: "L (sourceMarketId edge) = Lc"
    and rest: "set outgoing \<subseteq> set es" "\<forall>e\<in>set outgoing. L (sourceMarketId e) = Lc"
    and fuel: "3 - Lc \<le> fuel" and stack: "\<forall>s\<in>recursionStack st. L s \<le> Lc"
    by auto
  from lay e src have Lt: "L ?t = Suc Lc" "L ?t \<le> 3" by auto
  have notOn: "?t \<notin> recursionStack st"
  proof
    assume "?t \<in> recursionStack st"
    with stack have "L ?t \<le> Lc" by auto
    with Lt show False by simp
  qed
  show ?case
  proof (cases "?t \<in> visited st")
    case True
    have "\<exists>st'. dfsOutgoing fuel es path outgoing st = Some st' \<and> loops st' = loops st \<and>
                 recursionStack st' = recursionStack st"
      using True notOn by (intro "4.IH"(5) [OF refl _ _ lay rest fuel stack]) simp_all
    with True notOn show ?thesis by (simp add: Let_def)
  next
    case False
    have "\<exists>st'. dfs fuel es ?t path st = Some st' \<and> loops st' = loops st \<and>
                 recursionStack st' = recursionStack st"
    proof (rule "4.IH"(1) [OF refl _ lay])
      show "?t \<notin> visited st" by (rule False)
      show "L ?t \<le> 3" by (rule Lt(2))
      show "3 - L ?t < fuel" using Lt fuel by simp
      show "\<forall>s\<in>recursionStack st. L s < L ?t" using stack Lt by auto
    qed
    then obtain st1 where st1: "dfs fuel es ?t path st = Some st1" "loops st1 = loops st"
      "recursionStack st1 = recursionStack st" by auto
    have "\<exists>st'. dfsOutgoing fuel es path outgoing st1 = Some st' \<and> loops st' = loops st1 \<and>
                 recursionStack st' = recursionStack st1"
      using stack st1(3) by (intro "4.IH"(2) [OF refl False st1(1) lay rest fuel]) simp
    with st1 False show ?thesis by (simp add: Let_def)
  qed
qed

lemma dfsRoots_layered:
  fixes L :: "string \<Rightarrow> nat"
  assumes lay: "\<forall>e\<in>set es. L (targetMarketId e) = Suc (L (sourceMarketId e)) \<and> L (targetMarketId e) \<le> 3"
      and fuel: "4 \<le> fuel"
  shows "(\<forall>n\<in>set ns. L (nodeId n) \<le> 3) \<Longrightarrow> recursionStack st = {} \<Longrightarrow>
         \<exists>st'. dfsRoots fuel es ns st = Some st' \<and> loops st' = loops st"
proof (induction ns arbitrary: st)
  case Nil
  show ?case by simp
next
  case (Cons n ns)
  show ?case
  proof (cases "nodeId n \<in> visited st")
    case True
    with Cons show ?thesis by simp
  next
    case False
    have "\<exists>st'. dfs fuel es (nodeId n) [] st = Some st' \<and> loops st' = loops st \<and>
                 recursionStack st' = recursionStack st"
      using Cons.prems fuel by (intro dfs_layered(1) [OF lay]) auto
    then obtain st1 where st1: "dfs fuel es (nodeId n) [] st = Some st1" "loops st1 = loops st"
      "recursionStack st1 = {}" using Cons.prems(2) by auto
    from Cons.IH [OF _ st1(3)] Cons.prems(1)
    have "\<exists>st'. dfsRoots fuel es ns st1 = Some st' \<and> loops st' = loops st1" by simp
    with st1 False show ?thesis by simp
  qed
qed

lemma find_distinct:
  "distinct (map nodeId ns) \<Longrightarrow> n \<in> set ns \<Longrightarrow> find (\<lambda>m. nodeId m = nodeId n) ns = Some n"
  by (induction ns) (auto simp: image_iff)

lemma layerOf_node: "distinct (map nodeId ns) \<Longrightarrow> n \<in> set ns \<Longrightarrow> layerOf ns (nodeId n) = layer n"
  by (simp add: layerOf_def find_distinct)

lemma createSimulationScenario_layered:
  assumes "e \<in> set (edges (createSimulationScenario env args))"
  shows "layerOf (nodes (createSimulationScenario env args)) (targetMarketId e)
           = Suc (layerOf (nodes (createSimulationScenario env args)) (sourceMarketId e)) \<and>
         layerOf (nodes (createSimulationScenario env args)) (targetMarketId e) \<le> 3"
proof -
  note S = createSimulationScenario_stateInv [of args env]
  note d = shapeInv_graph(1) [OF S]
  from shapeInv_graph(2) [OF S assms] obtain s t where
    st: "s \<in> set (nodes (createSimulationScenario env args))"
        "t \<in> set (nodes (createSimulationScenario env args))"
        "nodeId s = sourceMarketId e" "nodeId t = targetMarketId e" "layer t = Suc (layer s)"
    by blast
  from shapeInv_graph(3) [OF S st(2)] have "layer t \<le> 3" by simp
  with st layerOf_node [OF d st(1)] layerOf_node [OF d st(2)] show ?thesis by simp
qed

text \<open>
  C10. In every graph returned by the builder each edge runs from a node at some layer L
  to a node at layer L + 1, no market id occurs twice, the edge relation is acyclic, and
  \<open>detectFeedbackLoops\<close> on the graph's nodes and edges returns the empty list (a
  recursion depth of 4 suffices for the search).
\<close>

theorem builder_graph_layered_acyclic:
  "(\<forall>e\<in>set (edges (createSimulationScenario env args)).
      \<exists>s\<in>set (nodes (createSimulationScenario env args)).
      \<exists>t\<in>set (nodes (createSimulationScenario env args)).
        nodeId s = sourceMarketId e \<and> nodeId t = targetMarketId e \<and> layer t = Suc (layer s)) \<and>
   distinct (map nodeId (nodes (createSimulationScenario env args))) \<and>
   acyclic ((\<lambda>e. (sourceMarketId e, targetMarketId e)) ` set (edges (createSimulationScenario env args))) \<and>
   (4 \<le> fuel \<longrightarrow>
      detectFeedbackLoops fuel (nodes (createSimulationScenario env args))
        (edges (createSimulationScenario env args)) = Some [])"
proof -
  let ?g = "createSimulationScenario env args"
  let ?L = "layerOf (nodes ?g)"
  note S = createSimulationScenario_stateInv [of args env]
  have 1: "\<exists>s\<in>set (nodes ?g). \<exists>t\<in>set (nodes ?g).
        nodeId s = sourceMarketId e \<and> nodeId t = targetMarketId e \<and> layer t = Suc (layer s)"
    if "e \<in> set (edges ?g)" for e
    by (rule shapeInv_graph(2) [OF S that])
  have 2: "distinct (map nodeId (nodes ?g))" by (rule shapeInv_graph(1) [OF S])
  have 3: "acyclic ((\<lambda>e. (sourceMarketId e, targetMarketId e)) ` set (edges ?g))"
  proof (rule acyclicI_order [where f = "\<lambda>x. 4 - ?L x"])
    fix a b assume "(a, b) \<in> (\<lambda>e. (sourceMarketId e, targetMarketId e)) ` set (edges ?g)"
    then obtain e where "e \<in> set (edges ?g)" "a = sourceMarketId e" "b = targetMarketId e" by auto
    with createSimulationScenario_layered [of e env args]
    show "4 - ?L b < 4 - ?L a" by auto
  qed
  have 4: "detectFeedbackLoops fuel (nodes ?g) (edges ?g) = Some []" if fuel: "4 \<le> fuel"
  proof -
    have lay: "\<forall>e\<in>set (edges ?g). ?L (targetMarketId e) = Suc (?L (sourceMarketId e)) \<and> ?L (targetMarketId e) \<le> 3"
      using createSimulationScenario_layered [of _ env args] by blast
    have ns: "\<forall>n\<in>set (nodes ?g). ?L (nodeId n) \<le> 3"
      using shapeInv_graph(3) [OF S] layerOf_node [OF 2] by simp
    from dfsRoots_layered [OF lay fuel ns, of "\<lparr>loops = [], visited = {}, recursionStack = {}\<rparr>"]
    show ?thesis by (auto simp: detectFeedbackLoops_def)
  qed
  show ?thesis using 1 2 3 4 by blast
qed

theorem builder_graph_layered_acyclic_witness:
  "detectFeedbackLoops 4 (nodes demoGraph) (edges demoGraph) = Some []"
proof -
  have "(4::nat) \<le> 4" by simp
  with builder_graph_layered_acyclic [of demoEnv demoArgs 4, unfolded demo_run] show ?thesis by blast
qed

section \<open>Every node and edge stems from a candidate the generator proposed\<close>

lemma validateResult_historical:
  assumes "validateResult env args k j processed r = Some v" "hasHistoricalData v"
  shows "\<exists>mkt tokenId.
           find (\<lambda>m. market_id m = marketId r) (availableMarkets args) = Some mkt \<and>
           extractTokenId env mkt = Some tokenId \<and>
           correlation v = Some (alignedCorrelation env args k j tokenId) \<and>
           0.20 \<le> \<bar>alignedCorrelation env args k j tokenId\<bar> \<and> 0.5 \<le> strength r \<and>
           strength v = (\<bar>alignedCorrelation env args k j tokenId\<bar> + strength r) / 2 \<and>
           marketId v = marketId r \<and> impactDirection v = impactDirection r \<and>
           timelag v = timelag r"
  using assms
  by (auto simp: validateResult_def alignedCorrelation_def Let_def downgraded_def
           split: option.splits if_splits)

lemma accepted_facts:
  assumes "accepted env args cm l r v c"
  shows "0.20 \<le> \<bar>c\<bar>" "0.5 \<le> strength r" "strength v = (\<bar>c\<bar> + strength r) / 2"
        "marketId v = marketId r" "impactDirection v = impactDirection r"
        "historical v = Some c" "c \<noteq> 0" "hasHistoricalData v"
proof -
  from assms obtain k j processed where
    v: "validateResult env args k j processed r = Some v" and h: "hasHistoricalData v"
    and c: "correlation v = Some c"
    unfolding accepted_def by blast
  from validateResult_historical [OF v h] c
  show a: "0.20 \<le> \<bar>c\<bar>" and "0.5 \<le> strength r" and "strength v = (\<bar>c\<bar> + strength r) / 2"
    and "marketId v = marketId r" and "impactDirection v = impactDirection r"
    by auto
  from a show nz: "c \<noteq> 0" by auto
  show "historical v = Some c" using h c nz by (simp add: historical_def truthy_def)
  show "hasHistoricalData v" by (rule h)
qed

lemma accepted_proposed:
  assumes "accepted env args cm l r v c"
  obtains k j processed mkt tokenId where
    "proposed env args k j cm l processed r"
    "find (\<lambda>m. market_id m = marketId r) (availableMarkets args) = Some mkt"
    "extractTokenId env mkt = Some tokenId"
    "c = alignedCorrelation env args k j tokenId"
  using assms unfolding accepted_def by blast

lemma in_sortedResults:
  assumes c: "(k, cm, l, processed) \<in> set (calls env args)"
      and s: "v \<in> set (sortedResults env args k cm l processed)"
  shows "\<exists>r c. accepted env args cm l r v c"
proof -
  from s have "v \<in> set (filter hasHistoricalData (validatedResults env args k cm processed))"
    unfolding sortedResults_def Let_def by (auto dest: in_set_takeD)
  then have h: "hasHistoricalData v" and "v \<in> set (validatedResults env args k cm processed)"
    by auto
  then obtain j r where jr: "(j, r) \<in> set (enumerate 0 (causalResults env args k cm processed))"
    and v: "validateResult env args k j processed r = Some v"
    unfolding validatedResults_def by (auto simp: List.map_filter_def)
  from jr c have p: "proposed env args k j cm l processed r"
    unfolding proposed_def by (simp add: in_set_enumerate_eq)
  from validateResult_historical [OF v h] obtain mkt tokenId where
    m: "find (\<lambda>m. market_id m = marketId r) (availableMarkets args) = Some mkt"
       "extractTokenId env mkt = Some tokenId"
       "correlation v = Some (alignedCorrelation env args k j tokenId)" by blast
  have "accepted env args cm l r v (alignedCorrelation env args k j tokenId)"
    unfolding accepted_def
  proof (intro conjI exI)
    show "proposed env args k j cm l processed r" by (rule p)
    show "validateResult env args k j processed r = Some v" by (rule v)
    show "v \<in> set (sortedResults env args k cm l processed)" by (rule s)
    show "find (\<lambda>m. market_id m = marketId r) (availableMarkets args) = Some mkt" by (rule m(1))
    show "extractTokenId env mkt = Some tokenId" by (rule m(2))
    show "alignedCorrelation env args k j tokenId = alignedCorrelation env args k j tokenId"
      by (rule refl)
    show "hasHistoricalData v" by (rule h)
    show "correlation v = Some (alignedCorrelation env args k j tokenId)" by (rule m(3))
  qed
  then show ?thesis by blast
qed

lemma in_updateFirst_outgoing:
  assumes "n' \<in> set (updateFirst P (\<lambda>n. n\<lparr>outgoingLinks := g n\<rparr>) xs)"
  shows "\<exists>n\<in>set xs. n'\<lparr>outgoingLinks := []\<rparr> = n\<lparr>outgoingLinks := []\<rparr> \<and> layer n' = layer n"
proof -
  let ?h = "\<lambda>n. (n\<lparr>outgoingLinks := []\<rparr>, layer n)"
  have eq: "map ?h (updateFirst P (\<lambda>n. n\<lparr>outgoingLinks := g n\<rparr>) xs) = map ?h xs"
    by (rule map_updateFirst) simp
  have "?h n' \<in> ?h ` set (updateFirst P (\<lambda>n. n\<lparr>outgoingLinks := g n\<rparr>) xs)"
    using assms by (rule imageI)
  also have "\<dots> = set (map ?h (updateFirst P (\<lambda>n. n\<lparr>outgoingLinks := g n\<rparr>) xs))"
    by (simp only: set_map)
  also have "\<dots> = set (map ?h xs)" by (simp only: eq)
  finally have "?h n' \<in> set (map ?h xs)" .
  then show ?thesis by auto
qed

lemma addResult_provenance:
  assumes p: "provenance env args (nodes st) (edges st)"
      and c: "(k, cm, l, processed) \<in> set (calls env args)"
      and v: "v \<in> set (sortedResults env args k cm l processed)"
  shows "provenance env args (nodes (addResult env args cm l v st)) (edges (addResult env args cm l v st))"
proof (cases rule: addResult_cases [of env args cm l v st])
  case skip
  with p show ?thesis by simp
next
  case (add mkt)
  from in_sortedResults [OF c v] obtain r c where acc: "accepted env args cm l r v c" by blast
  let ?e = "edgeFor env args cm mkt v" and ?n = "nodeFor env args cm l mkt v"
  have E: "\<exists>cm l mkt r v c. accepted env args cm l r v c \<and>
        find (\<lambda>m. market_id m = marketId v) (availableMarkets args) = Some mkt \<and>
        e = edgeFor env args cm mkt v" if "e \<in> set (edges st @ [?e])" for e
  proof (cases "e \<in> set (edges st)")
    case True
    with p show ?thesis unfolding provenance_def by blast
  next
    case False
    with that have "e = ?e" by simp
    with acc add(1) show ?thesis by blast
  qed
  have N: "layer n' = 0 \<or> (\<exists>cm l mkt r v c. accepted env args cm l r v c \<and>
        find (\<lambda>m. market_id m = marketId v) (availableMarkets args) = Some mkt \<and>
        n'\<lparr>outgoingLinks := []\<rparr> = nodeFor env args cm l mkt v \<and>
        edgeFor env args cm mkt v \<in> set (edges st @ [?e]))"
    if "n' \<in> set (nodes (addResult env args cm l v st))" for n'
  proof -
    from in_updateFirst_outgoing [of n' "\<lambda>n. nodeId n = market_id cm"
           "\<lambda>n. outgoingLinks n @ [?e]" "nodes st @ [?n]"] that [unfolded add(3)]
    obtain n where n: "n \<in> set (nodes st @ [?n])" "n'\<lparr>outgoingLinks := []\<rparr> = n\<lparr>outgoingLinks := []\<rparr>"
      "layer n' = layer n" by blast
    show ?thesis
    proof (cases "n \<in> set (nodes st)")
      case True
      with p have "layer n = 0 \<or> (\<exists>cm l mkt r v c. accepted env args cm l r v c \<and>
        find (\<lambda>m. market_id m = marketId v) (availableMarkets args) = Some mkt \<and>
        n\<lparr>outgoingLinks := []\<rparr> = nodeFor env args cm l mkt v \<and>
        edgeFor env args cm mkt v \<in> set (edges st))"
        unfolding provenance_def by blast
      then show ?thesis
      proof
        assume "layer n = 0"
        then show ?thesis by (simp add: n(3))
      next
        assume "\<exists>cm l mkt r v c. accepted env args cm l r v c \<and>
          find (\<lambda>m. market_id m = marketId v) (availableMarkets args) = Some mkt \<and>
          n\<lparr>outgoingLinks := []\<rparr> = nodeFor env args cm l mkt v \<and>
          edgeFor env args cm mkt v \<in> set (edges st)"
        then obtain cm' l' mkt' r' v' c' where o: "accepted env args cm' l' r' v' c'"
          "find (\<lambda>m. market_id m = marketId v') (availableMarkets args) = Some mkt'"
          "n\<lparr>outgoingLinks := []\<rparr> = nodeFor env args cm' l' mkt' v'"
          "edgeFor env args cm' mkt' v' \<in> set (edges st)" by blast
        from o(4) have "edgeFor env args cm' mkt' v' \<in> set (edges st @ [?e])" by simp
        with o(1,2) o(3) [folded n(2)] show ?thesis by blast
      qed
    next
      case False
      with n(1) have "n = ?n" by simp
      then have "n'\<lparr>outgoingLinks := []\<rparr> = ?n" using n(2) by (simp add: nodeFor_def Let_def)
      moreover have "?e \<in> set (edges st @ [?e])" by simp
      ultimately show ?thesis using acc add(1) by blast
    qed
  qed
  show ?thesis unfolding provenance_def add(4) using E N by blast
qed

lemma createSimulationScenario_provenance:
  "provenance env args (nodes (createSimulationScenario env args))
     (edges (createSimulationScenario env args))"
proof -
  have "provenance env args (nodes (buildLoop env args 1 (initialState args)))
          (edges (buildLoop env args 1 (initialState args)))"
  proof (rule buildLoop_calls_rule [where I = "provenance env args" and C = "set (calls env args)"])
    show "provenance env args (nodes (initialState args)) (edges (initialState args))"
      by (simp add: provenance_def initialState_def triggerNode_def)
    show "set (expansions env args 1 (initialState args)) \<subseteq> set (calls env args)"
      by (simp add: calls_def)
  qed (rule addResult_provenance)
  then show ?thesis by (simp add: createSimulationScenario_def Let_def)
qed

lemma nodeFor_probability:
  assumes n: "n\<lparr>outgoingLinks := []\<rparr> = nodeFor env args cm l mkt v"
  shows "predictedProbability n =
           max 0.01 (min 0.99 (currentProbability n + directionOf v * changeMagnitude args v))"
    and "nodeId n = market_id mkt"
    and "layer n = Suc l"
proof -
  have "predictedProbability n = predictedProbability (n\<lparr>outgoingLinks := []\<rparr>)"
    "currentProbability n = currentProbability (n\<lparr>outgoingLinks := []\<rparr>)"
    "nodeId n = nodeId (n\<lparr>outgoingLinks := []\<rparr>)"
    "layer n = layer (n\<lparr>outgoingLinks := []\<rparr>)"
    by (simp_all add: nodeId_def)
  then show "predictedProbability n =
           max 0.01 (min 0.99 (currentProbability n + directionOf v * changeMagnitude args v))"
    and "nodeId n = market_id mkt"
    and "layer n = Suc l"
    unfolding n by (simp_all add: nodeFor_def Let_def nodeId_def)
qed

lemma admitted_edge:
  assumes "e \<in> set (edges (createSimulationScenario env args))"
  obtains cm l r v c where "accepted env args cm l r v c"
    "sourceMarketId e = market_id cm" "targetMarketId e = marketId r"
    "link_strength e = strength v"
proof -
  note P = createSimulationScenario_provenance [of env args, unfolded provenance_def]
  note PE = P [THEN conjunct1, rule_format]
  from PE [OF assms] obtain cm l mkt r v c where o: "accepted env args cm l r v c"
      "find (\<lambda>m. market_id m = marketId v) (availableMarkets args) = Some mkt"
      "e = edgeFor env args cm mkt v" by blast
  from o(2) have "market_id mkt = marketId v" by (auto simp: find_Some_iff)
  with accepted_facts(4) [OF o(1)] have t: "targetMarketId e = marketId r"
    unfolding o(3) by (simp add: edgeFor_simps)
  have s: "sourceMarketId e = market_id cm" "link_strength e = strength v"
    unfolding o(3) by (simp_all add: edgeFor_simps)
  show ?thesis by (rule that [OF o(1) s(1) t s(2)])
qed

lemma admitted_node:
  assumes "n \<in> set (nodes (createSimulationScenario env args))" "layer n \<noteq> 0"
  obtains cm l mkt r v c where "accepted env args cm l r v c" "nodeId n = marketId r"
    "predictedProbability n =
       max 0.01 (min 0.99 (currentProbability n + directionOf v * changeMagnitude args v))"
    "edgeFor env args cm mkt v \<in> set (edges (createSimulationScenario env args))"
    "nodeId n = market_id mkt" "layer n = Suc l"
proof -
  note P = createSimulationScenario_provenance [of env args, unfolded provenance_def]
  note PN = P [THEN conjunct2, rule_format]
  from PN [OF assms(1)] assms(2) obtain cm l mkt r v c where o: "accepted env args cm l r v c"
      "find (\<lambda>m. market_id m = marketId v) (availableMarkets args) = Some mkt"
      "n\<lparr>outgoingLinks := []\<rparr> = nodeFor env args cm l mkt v"
      "edgeFor env args cm mkt v \<in> set (edges (createSimulationScenario env args))" by blast
  from o(2) have "market_id mkt = marketId v" by (auto simp: find_Some_iff)
  with nodeFor_probability [OF o(3)] accepted_facts(4) [OF o(1)]
  have i: "nodeId n = marketId r" "nodeId n = market_id mkt" by simp_all
  show ?thesis
    by (rule that [OF o(1) i(1) nodeFor_probability(1) [OF o(3)] o(4) i(2)
          nodeFor_probability(3) [OF o(3)]])
qed

text \<open>
  C3. For a candidate whose market is available, unprocessed and has a token, with at
  least 10 points in the trigger's history, in its own history and in the alignment: if
  the correlation of the aligned histories is below 0.20 in absolute value, or the claimed
  strength is below 0.5, the validator rejects it (nothing is pushed), whatever the other
  value is; otherwise it is accepted with strength equal to the mean of |correlation| and
  the claimed strength.

  At the level of the graph: every edge stems from a candidate \<open>r\<close> that the generator
  returned during the run for the edge's source market, whose historical correlation \<open>c\<close>
  (that of the trigger's history aligned with the history of the candidate's token) has
  |c| \<ge> 0.20 and whose claimed strength is at least 0.5; the edge targets the candidate's
  market and its strength is the mean of |c| and the claimed strength. Every node above
  layer 0 stems from such a candidate, proposed for a market one layer above it.
  Conversely, a market \<open>x\<close> all of whose proposals during the run have a claimed strength
  below 0.5 or a historical correlation below 0.20 in absolute value is the target of no
  edge and the market of no node above layer 0.
\<close>

theorem validator_gate:
  "(find (\<lambda>m. market_id m = marketId r) (availableMarkets args) = Some mkt \<and>
    market_id mkt \<notin> processed \<and>
    extractTokenId env mkt = Some tokenId \<and> tokenId \<noteq> [] \<and>
    10 \<le> length (triggerPriceHistory env args) \<and>
    10 \<le> length (getPriceHistory env k j tokenId) \<and>
    10 \<le> length (prices1 (alignPriceSeries (triggerPriceHistory env args)
                              (getPriceHistory env k j tokenId)))
    \<longrightarrow>
      (\<bar>alignedCorrelation env args k j tokenId\<bar> < 0.20 \<or> strength r < 0.5
         \<longrightarrow> validateResult env args k j processed r = None) \<and>
      (0.20 \<le> \<bar>alignedCorrelation env args k j tokenId\<bar> \<and> 0.5 \<le> strength r
         \<longrightarrow> (\<exists>v. validateResult env args k j processed r = Some v \<and> hasHistoricalData v \<and>
                  strength v = (\<bar>alignedCorrelation env args k j tokenId\<bar> + strength r) / 2))) \<and>
   (\<forall>e\<in>set (edges (createSimulationScenario env args)).
      \<exists>cm l r' v c. accepted env args cm l r' v c \<and> 0.20 \<le> \<bar>c\<bar> \<and> 0.5 \<le> strength r' \<and>
        sourceMarketId e = market_id cm \<and> targetMarketId e = marketId r' \<and>
        link_strength e = (\<bar>c\<bar> + strength r') / 2) \<and>
   (\<forall>n\<in>set (nodes (createSimulationScenario env args)). layer n \<noteq> 0 \<longrightarrow>
      (\<exists>cm l r' v c. accepted env args cm l r' v c \<and> 0.20 \<le> \<bar>c\<bar> \<and> 0.5 \<le> strength r' \<and>
         nodeId n = marketId r' \<and> layer n = Suc l)) \<and>
   ((\<forall>k' j' cm l processed' r' mkt' tokenId'.
       proposed env args k' j' cm l processed' r' \<and> marketId r' = x \<and>
       find (\<lambda>m. market_id m = x) (availableMarkets args) = Some mkt' \<and>
       extractTokenId env mkt' = Some tokenId'
       \<longrightarrow> \<bar>alignedCorrelation env args k' j' tokenId'\<bar> < 0.20 \<or> strength r' < 0.5)
    \<longrightarrow> (\<forall>e\<in>set (edges (createSimulationScenario env args)). targetMarketId e \<noteq> x) \<and>
        (\<forall>n\<in>set (nodes (createSimulationScenario env args)). layer n \<noteq> 0 \<longrightarrow> nodeId n \<noteq> x))"
proof -
  let ?g = "createSimulationScenario env args"
  have a: "(\<bar>alignedCorrelation env args k j tokenId\<bar> < 0.20 \<or> strength r < 0.5
         \<longrightarrow> validateResult env args k j processed r = None) \<and>
      (0.20 \<le> \<bar>alignedCorrelation env args k j tokenId\<bar> \<and> 0.5 \<le> strength r
         \<longrightarrow> (\<exists>v. validateResult env args k j processed r = Some v \<and> hasHistoricalData v \<and>
                  strength v = (\<bar>alignedCorrelation env args k j tokenId\<bar> + strength r) / 2))"
    if "find (\<lambda>m. market_id m = marketId r) (availableMarkets args) = Some mkt"
       "market_id mkt \<notin> processed" "extractTokenId env mkt = Some tokenId" "tokenId \<noteq> []"
       "10 \<le> length (triggerPriceHistory env args)"
       "10 \<le> length (getPriceHistory env k j tokenId)"
       "10 \<le> length (prices1 (alignPriceSeries (triggerPriceHistory env args)
                              (getPriceHistory env k j tokenId)))"
    using that by (auto simp: validateResult_def alignedCorrelation_def Let_def)
  have b: "\<exists>cm l r' v c. accepted env args cm l r' v c \<and> 0.20 \<le> \<bar>c\<bar> \<and> 0.5 \<le> strength r' \<and>
        sourceMarketId e = market_id cm \<and> targetMarketId e = marketId r' \<and>
        link_strength e = (\<bar>c\<bar> + strength r') / 2"
    if "e \<in> set (edges ?g)" for e
  proof (rule admitted_edge [OF that])
    fix cm l r' v c
    assume o: "accepted env args cm l r' v c"
      "sourceMarketId e = market_id cm" "targetMarketId e = marketId r'"
      "link_strength e = strength v"
    note f = accepted_facts [OF o(1)]
    show ?thesis
    proof (intro exI conjI)
      show "accepted env args cm l r' v c" by (rule o(1))
      show "0.20 \<le> \<bar>c\<bar>" by (rule f(1))
      show "0.5 \<le> strength r'" by (rule f(2))
      show "sourceMarketId e = market_id cm" by (rule o(2))
      show "targetMarketId e = marketId r'" by (rule o(3))
      show "link_strength e = (\<bar>c\<bar> + strength r') / 2" using o(4) f(3) by simp
    qed
  qed
  have c: "\<exists>cm l r' v c. accepted env args cm l r' v c \<and> 0.20 \<le> \<bar>c\<bar> \<and> 0.5 \<le> strength r' \<and>
         nodeId n = marketId r' \<and> layer n = Suc l"
    if n: "n \<in> set (nodes ?g)" "layer n \<noteq> 0" for n
  proof (rule admitted_node [OF n])
    fix cm l r' v c
    assume o: "accepted env args cm l r' v c" "nodeId n = marketId r'" "layer n = Suc l"
    note f = accepted_facts [OF o(1)]
    show ?thesis
    proof (intro exI conjI)
      show "accepted env args cm l r' v c" by (rule o(1))
      show "0.20 \<le> \<bar>c\<bar>" by (rule f(1))
      show "0.5 \<le> strength r'" by (rule f(2))
      show "nodeId n = marketId r'" by (rule o(2))
      show "layer n = Suc l" by (rule o(3))
    qed
  qed
  have rejected: False
    if H: "\<forall>k' j' cm l processed' r' mkt' tokenId'.
       proposed env args k' j' cm l processed' r' \<and> marketId r' = x \<and>
       find (\<lambda>m. market_id m = x) (availableMarkets args) = Some mkt' \<and>
       extractTokenId env mkt' = Some tokenId'
       \<longrightarrow> \<bar>alignedCorrelation env args k' j' tokenId'\<bar> < 0.20 \<or> strength r' < 0.5"
      and acc: "accepted env args cm l r' v c" and x: "marketId r' = x"
    for cm l r' v c
  proof (rule accepted_proposed [OF acc])
    fix k' j' processed' mkt' tokenId'
    assume p: "proposed env args k' j' cm l processed' r'"
      "find (\<lambda>m. market_id m = marketId r') (availableMarkets args) = Some mkt'"
      "extractTokenId env mkt' = Some tokenId'"
      "c = alignedCorrelation env args k' j' tokenId'"
    from H [rule_format, of k' j' cm l processed' r' mkt' tokenId'] p(1) x p(2) [unfolded x] p(3)
    have "\<bar>alignedCorrelation env args k' j' tokenId'\<bar> < 0.20 \<or> strength r' < 0.5" by blast
    with accepted_facts(1,2) [OF acc] p(4) show False by auto
  qed
  have d: "(\<forall>e\<in>set (edges ?g). targetMarketId e \<noteq> x) \<and>
        (\<forall>n\<in>set (nodes ?g). layer n \<noteq> 0 \<longrightarrow> nodeId n \<noteq> x)"
    if H: "\<forall>k' j' cm l processed' r' mkt' tokenId'.
       proposed env args k' j' cm l processed' r' \<and> marketId r' = x \<and>
       find (\<lambda>m. market_id m = x) (availableMarkets args) = Some mkt' \<and>
       extractTokenId env mkt' = Some tokenId'
       \<longrightarrow> \<bar>alignedCorrelation env args k' j' tokenId'\<bar> < 0.20 \<or> strength r' < 0.5"
  proof (intro conjI ballI impI notI)
    fix e assume e: "e \<in> set (edges ?g)" "targetMarketId e = x"
    show False
    proof (rule admitted_edge [OF e(1)])
      fix cm l r' v c
      assume o: "accepted env args cm l r' v c" "targetMarketId e = marketId r'"
      from o(2) e(2) have "marketId r' = x" by simp
      from rejected [OF H o(1) this] show False .
    qed
  next
    fix n assume n: "n \<in> set (nodes ?g)" "layer n \<noteq> 0" "nodeId n = x"
    show False
    proof (rule admitted_node [OF n(1,2)])
      fix cm l r' v c
      assume o: "accepted env args cm l r' v c" "nodeId n = marketId r'"
      from o(2) n(3) have "marketId r' = x" by simp
      from rejected [OF H o(1) this] show False .
    qed
  qed
  show ?thesis
  proof (intro conjI)
    show "find (\<lambda>m. market_id m = marketId r) (availableMarkets args) = Some mkt \<and>
    market_id mkt \<notin> processed \<and>
    extractTokenId env mkt = Some tokenId \<and> tokenId \<noteq> [] \<and>
    10 \<le> length (triggerPriceHistory env args) \<and>
    10 \<le> length (getPriceHistory env k j tokenId) \<and>
    10 \<le> length (prices1 (alignPriceSeries (triggerPriceHistory env args)
                              (getPriceHistory env k j tokenId)))
    \<longrightarrow>
      (\<bar>alignedCorrelation env args k j tokenId\<bar> < 0.20 \<or> strength r < 0.5
         \<longrightarrow> validateResult env args k j processed r = None) \<and>
      (0.20 \<le> \<bar>alignedCorrelation env args k j tokenId\<bar> \<and> 0.5 \<le> strength r
         \<longrightarrow> (\<exists>v. validateResult env args k j processed r = Some v \<and> hasHistoricalData v \<and>
                  strength v = (\<bar>alignedCorrelation env args k j tokenId\<bar> + strength r) / 2))"
      using a by blast
    show "\<forall>e\<in>set (edges ?g).
      \<exists>cm l r' v c. accepted env args cm l r' v c \<and> 0.20 \<le> \<bar>c\<bar> \<and> 0.5 \<le> strength r' \<and>
        sourceMarketId e = market_id cm \<and> targetMarketId e = marketId r' \<and>
        link_strength e = (\<bar>c\<bar> + strength r') / 2"
      using b by (rule ballI)
    show "\<forall>n\<in>set (nodes ?g). layer n \<noteq> 0 \<longrightarrow>
      (\<exists>cm l r' v c. accepted env args cm l r' v c \<and> 0.20 \<le> \<bar>c\<bar> \<and> 0.5 \<le> strength r' \<and>
         nodeId n = marketId r' \<and> layer n = Suc l)"
      using c by (intro ballI impI)
    show "(\<forall>k' j' cm l processed' r' mkt' tokenId'.
       proposed env args k' j' cm l processed' r' \<and> marketId r' = x \<and>
       find (\<lambda>m. market_id m = x) (availableMarkets args) = Some mkt' \<and>
       extractTokenId env mkt' = Some tokenId'
       \<longrightarrow> \<bar>alignedCorrelation env args k' j' tokenId'\<bar> < 0.20 \<or> strength r' < 0.5)
    \<longrightarrow> (\<forall>e\<in>set (edges ?g). targetMarketId e \<noteq> x) \<and>
        (\<forall>n\<in>set (nodes ?g). layer n \<noteq> 0 \<longrightarrow> nodeId n \<noteq> x)"
      using d by (rule impI)
  qed
qed

theorem validator_gate_witness:
  "validateResult demoEnv demoArgs 1 2 {''t''} demoCandC = None \<and>
   proposed demoEnv demoArgs 1 2 demoT 0 {''t''} demoCandC \<and>
   strength demoCandC = 9/10 \<and> alignedCorrelation demoEnv demoArgs 1 2 ''103'' = 0 \<and>
   targetMarketId demoEdge \<noteq> ''c'' \<and> nodeId demoNodeA \<noteq> ''c'' \<and>
   (\<exists>cm l r v c. accepted demoEnv demoArgs cm l r v c \<and> 0.20 \<le> \<bar>c\<bar> \<and> 0.5 \<le> strength r \<and>
      sourceMarketId demoEdge = market_id cm \<and> targetMarketId demoEdge = marketId r \<and>
      link_strength demoEdge = (\<bar>c\<bar> + strength r) / 2) \<and>
   (\<exists>cm l r v c. accepted demoEnv demoArgs cm l r v c \<and> 0.20 \<le> \<bar>c\<bar> \<and> 0.5 \<le> strength r \<and>
      nodeId demoNodeA = marketId r \<and> layer demoNodeA = Suc l)"
proof -
  note G = validator_gate [where r = demoCandC and args = demoArgs and mkt = demoC
      and processed = "{''t''}" and env = demoEnv and tokenId = "''103''" and k = 1 and j = 2
      and x = "''c''", unfolded demo_run]
  have h: "find (\<lambda>m. market_id m = marketId demoCandC) (availableMarkets demoArgs) = Some demoC \<and>
    market_id demoC \<notin> {''t''} \<and>
    extractTokenId demoEnv demoC = Some ''103'' \<and> ''103'' \<noteq> [] \<and>
    10 \<le> length (triggerPriceHistory demoEnv demoArgs) \<and>
    10 \<le> length (getPriceHistory demoEnv 1 2 ''103'') \<and>
    10 \<le> length (prices1 (alignPriceSeries (triggerPriceHistory demoEnv demoArgs)
                              (getPriceHistory demoEnv 1 2 ''103'')))"
    by (simp add: demo_cands demo_find demo_ids demo_tokens demo_triggerPriceHistory
          demo_history demo_length demo_align_C)
  have c: "\<bar>alignedCorrelation demoEnv demoArgs 1 2 ''103''\<bar> < 0.20 \<or> strength demoCandC < 0.5"
    by (simp add: demo_alignedCorrelation)
  from G [THEN conjunct1] h c
  have v: "validateResult demoEnv demoArgs 1 2 {''t''} demoCandC = None" by blast
  have H: "\<forall>k' j' cm l processed' r' mkt' tokenId'.
       proposed demoEnv demoArgs k' j' cm l processed' r' \<and> marketId r' = ''c'' \<and>
       find (\<lambda>m. market_id m = ''c'') (availableMarkets demoArgs) = Some mkt' \<and>
       extractTokenId demoEnv mkt' = Some tokenId'
       \<longrightarrow> \<bar>alignedCorrelation demoEnv demoArgs k' j' tokenId'\<bar> < 0.20 \<or> strength r' < 0.5"
    by (auto simp: demo_find demo_tokens demo_alignedCorrelation)
  note N = G [THEN conjunct2, THEN conjunct2, THEN conjunct2, THEN mp, OF H]
  from N [THEN conjunct1, rule_format, OF demo_graph_facts(1)]
  have e: "targetMarketId demoEdge \<noteq> ''c''" .
  from N [THEN conjunct2, rule_format, OF demo_graph_facts(2) demo_graph_facts(4)]
  have n: "nodeId demoNodeA \<noteq> ''c''" .
  note E = G [THEN conjunct2, THEN conjunct1, rule_format, OF demo_graph_facts(1)]
  note D = G [THEN conjunct2, THEN conjunct2, THEN conjunct1, rule_format,
      OF demo_graph_facts(2) demo_graph_facts(4)]
  have f: "strength demoCandC = 9/10" "alignedCorrelation demoEnv demoArgs 1 2 ''103'' = 0"
    by (simp_all add: demo_cands demo_alignedCorrelation)
  show ?thesis
  proof (intro conjI)
    show "validateResult demoEnv demoArgs 1 2 {''t''} demoCandC = None" by (rule v)
    show "proposed demoEnv demoArgs 1 2 demoT 0 {''t''} demoCandC" by (rule demo_proposed)
    show "strength demoCandC = 9/10" by (rule f)
    show "alignedCorrelation demoEnv demoArgs 1 2 ''103'' = 0" by (rule f)
    show "targetMarketId demoEdge \<noteq> ''c''" by (rule e)
    show "nodeId demoNodeA \<noteq> ''c''" by (rule n)
    show "\<exists>cm l r v c. accepted demoEnv demoArgs cm l r v c \<and> 0.20 \<le> \<bar>c\<bar> \<and> 0.5 \<le> strength r \<and>
      sourceMarketId demoEdge = market_id cm \<and> targetMarketId demoEdge = marketId r \<and>
      link_strength demoEdge = (\<bar>c\<bar> + strength r) / 2" by (rule E)
    show "\<exists>cm l r v c. accepted demoEnv demoArgs cm l r v c \<and> 0.20 \<le> \<bar>c\<bar> \<and> 0.5 \<le> strength r \<and>
      nodeId demoNodeA = marketId r \<and> layer demoNodeA = Suc l" by (rule D)
  qed
qed

section \<open>Direction and magnitude of the predicted change\<close>

text \<open>
  C1 (amended). Every node above layer 0 was built from a candidate \<open>r\<close> that the generator
  returned during the run for a market \<open>cm\<close> one layer above the node, and that the
  validator accepted with a nonzero historical correlation \<open>c\<close>. The direction applied to
  the node's predicted probability is the direction \<open>impactDirection r\<close> that the generator
  claimed: the probability is raised by the magnitude if the claimed direction is
  "increase" and lowered otherwise, whatever the sign of \<open>c\<close>. The sign of the correlation
  determines only the direction recorded on the edge from \<open>cm\<close> into the node.
\<close>

theorem builder_direction:
  "\<forall>n\<in>set (nodes (createSimulationScenario env args)). layer n \<noteq> 0 \<longrightarrow>
     (\<exists>cm l r v c. accepted env args cm l r v c \<and> nodeId n = marketId r \<and> layer n = Suc l \<and>
        c \<noteq> 0 \<and>
        predictedProbability n =
          max 0.01 (min 0.99 (currentProbability n +
            (if impactDirection r = ''increase'' then 1 else - 1) *
              (\<bar>c\<bar> * (1.0 - triggerPrice args) * 0.5))) \<and>
        (\<exists>e\<in>set (edges (createSimulationScenario env args)).
           sourceMarketId e = market_id cm \<and> targetMarketId e = nodeId n \<and>
           direction e = (if c > 0 then ''increase'' else ''decrease'')))"
proof (intro ballI impI)
  fix n assume n: "n \<in> set (nodes (createSimulationScenario env args))" "layer n \<noteq> 0"
  show "\<exists>cm l r v c. accepted env args cm l r v c \<and> nodeId n = marketId r \<and> layer n = Suc l \<and>
        c \<noteq> 0 \<and>
        predictedProbability n =
          max 0.01 (min 0.99 (currentProbability n +
            (if impactDirection r = ''increase'' then 1 else - 1) *
              (\<bar>c\<bar> * (1.0 - triggerPrice args) * 0.5))) \<and>
        (\<exists>e\<in>set (edges (createSimulationScenario env args)).
           sourceMarketId e = market_id cm \<and> targetMarketId e = nodeId n \<and>
           direction e = (if c > 0 then ''increase'' else ''decrease''))"
  proof (rule admitted_node [OF n])
  fix cm l mkt r v c
  assume o: "accepted env args cm l r v c"
    "nodeId n = marketId r"
    "predictedProbability n =
       max 0.01 (min 0.99 (currentProbability n + directionOf v * changeMagnitude args v))"
    "edgeFor env args cm mkt v \<in> set (edges (createSimulationScenario env args))"
    "nodeId n = market_id mkt" "layer n = Suc l"
  note f = accepted_facts [OF o(1)]
  have d: "directionOf v = (if impactDirection r = ''increase'' then 1 else - 1)"
    by (simp add: directionOf_def f(5,6))
  have m: "changeMagnitude args v = \<bar>c\<bar> * (1.0 - triggerPrice args) * 0.5"
    by (simp add: changeMagnitude_def f(6) Let_def)
  have e: "targetMarketId (edgeFor env args cm mkt v) = nodeId n \<and>
           direction (edgeFor env args cm mkt v) = (if c > 0 then ''increase'' else ''decrease'')"
    by (simp add: edgeFor_def f(6) o(5))
  show "\<exists>cm l r v c. accepted env args cm l r v c \<and> nodeId n = marketId r \<and> layer n = Suc l \<and>
        c \<noteq> 0 \<and>
        predictedProbability n =
          max 0.01 (min 0.99 (currentProbability n +
            (if impactDirection r = ''increase'' then 1 else - 1) *
              (\<bar>c\<bar> * (1.0 - triggerPrice args) * 0.5))) \<and>
        (\<exists>e\<in>set (edges (createSimulationScenario env args)).
           sourceMarketId e = market_id cm \<and> targetMarketId e = nodeId n \<and>
           direction e = (if c > 0 then ''increase'' else ''decrease''))"
  proof (intro exI conjI bexI)
    show "accepted env args cm l r v c" by (rule o(1))
    show "nodeId n = marketId r" by (rule o(2))
    show "layer n = Suc l" by (rule o(6))
    show "c \<noteq> 0" by (rule f(7))
    show "predictedProbability n =
          max 0.01 (min 0.99 (currentProbability n +
            (if impactDirection r = ''increase'' then 1 else - 1) *
              (\<bar>c\<bar> * (1.0 - triggerPrice args) * 0.5)))"
      by (rule o(3) [unfolded d m])
    show "sourceMarketId (edgeFor env args cm mkt v) = market_id cm"
      by (rule edgeFor_simps)
    show "targetMarketId (edgeFor env args cm mkt v) = nodeId n" using e by (rule conjunct1)
    show "direction (edgeFor env args cm mkt v) = (if c > 0 then ''increase'' else ''decrease'')"
      using e by (rule conjunct2)
    show "edgeFor env args cm mkt v \<in> set (edges (createSimulationScenario env args))"
      by (rule o(4))
  qed
  qed
qed

theorem builder_direction_witness:
  "\<exists>cm l r v c. accepted demoEnv demoArgs cm l r v c \<and> nodeId demoNodeA = marketId r \<and>
        layer demoNodeA = Suc l \<and> c \<noteq> 0 \<and>
        predictedProbability demoNodeA =
          max 0.01 (min 0.99 (currentProbability demoNodeA +
            (if impactDirection r = ''increase'' then 1 else - 1) *
              (\<bar>c\<bar> * (1.0 - triggerPrice demoArgs) * 0.5))) \<and>
        (\<exists>e\<in>set (edges demoGraph).
           sourceMarketId e = market_id cm \<and> targetMarketId e = nodeId demoNodeA \<and>
           direction e = (if c > 0 then ''increase'' else ''decrease''))"
proof -
  have "layer demoNodeA \<noteq> 0" by (rule demo_graph_facts)
  with builder_direction [of demoEnv demoArgs, unfolded demo_run, rule_format, OF demo_graph_facts(2)]
  show ?thesis .
qed

text \<open>
  The claim as stated fails: the generator proposes market \<open>a\<close> for the trigger with
  claimed direction "decrease", the validator admits it with historical correlation +1,
  and its predicted probability is lowered from 0.5 to 0.1.
\<close>

theorem builder_direction_counterexample:
  "createSimulationScenario demoEnv demoArgs = demoGraph \<and>
   proposed demoEnv demoArgs 1 0 demoT 0 {''t''} demoCandA \<and>
   validateResult demoEnv demoArgs 1 0 {''t''} demoCandA = Some demoValidatedA \<and>
   alignedCorrelation demoEnv demoArgs 1 0 ''102'' = 1 \<and>
   correlation demoValidatedA = Some 1 \<and>
   impactDirection demoCandA = ''decrease'' \<and>
   nodeId demoNodeA = marketId demoCandA \<and>
   currentProbability demoNodeA = 1/2 \<and>
   predictedProbability demoNodeA = 1/10"
proof (intro conjI)
  show "createSimulationScenario demoEnv demoArgs = demoGraph" by (rule demo_run)
  show "proposed demoEnv demoArgs 1 0 demoT 0 {''t''} demoCandA" by (rule demo_proposed)
  show "validateResult demoEnv demoArgs 1 0 {''t''} demoCandA = Some demoValidatedA"
    by (rule demo_validate_A)
  show "alignedCorrelation demoEnv demoArgs 1 0 ''102'' = 1" by (rule demo_alignedCorrelation)
  show "correlation demoValidatedA = Some 1" by (simp add: demoValidatedA_def)
  show "impactDirection demoCandA = ''decrease''" by (simp add: demoCandA_def)
  show "nodeId demoNodeA = marketId demoCandA" by (simp add: demo_graph_facts demo_cands)
  show "currentProbability demoNodeA = 1/2" by (rule demo_graph_facts)
  show "predictedProbability demoNodeA = 1/10" by (rule demo_graph_facts)
qed

text \<open>
  C2 (amended). Every candidate admitted to the graph has historical data; the magnitude
  applied to its node is |correlation| \<times> shock \<times> 0.5, where shock is 1.0 minus the trigger
  node's current probability, and the node's predicted probability is its current
  probability plus or minus that magnitude, clamped to [0.01, 0.99]. A candidate without
  historical data is never admitted; for the record the validator pushes for it (strength
  halved) the estimator's fallback magnitude is the halved strength times 0.10.
\<close>

theorem builder_magnitude:
  "(\<forall>n\<in>set (nodes (createSimulationScenario env args)). layer n \<noteq> 0 \<longrightarrow>
      (\<exists>cm l r v c. accepted env args cm l r v c \<and> nodeId n = marketId r \<and> hasHistoricalData v \<and>
         changeMagnitude args v = \<bar>c\<bar> * (1.0 - currentProbability (triggerNode args)) * 0.5 \<and>
         (predictedProbability n
            = max 0.01 (min 0.99 (currentProbability n + changeMagnitude args v)) \<or>
          predictedProbability n
            = max 0.01 (min 0.99 (currentProbability n - changeMagnitude args v))))) \<and>
   currentProbability (triggerNode args) = triggerPrice args \<and>
   \<not> hasHistoricalData (downgraded candidate) \<and>
   changeMagnitude args (downgraded candidate) = (strength candidate * 0.5) * 0.10"
proof -
  have a: "\<exists>cm l r v c. accepted env args cm l r v c \<and> nodeId n = marketId r \<and> hasHistoricalData v \<and>
         changeMagnitude args v = \<bar>c\<bar> * (1.0 - currentProbability (triggerNode args)) * 0.5 \<and>
         (predictedProbability n
            = max 0.01 (min 0.99 (currentProbability n + changeMagnitude args v)) \<or>
          predictedProbability n
            = max 0.01 (min 0.99 (currentProbability n - changeMagnitude args v)))"
    if n: "n \<in> set (nodes (createSimulationScenario env args))" "layer n \<noteq> 0" for n
  proof -
    show ?thesis
    proof (rule admitted_node [OF n])
    fix cm l mkt r v c
    assume o: "accepted env args cm l r v c"
      "nodeId n = marketId r"
      "predictedProbability n =
         max 0.01 (min 0.99 (currentProbability n + directionOf v * changeMagnitude args v))"
    note f = accepted_facts [OF o(1)]
    have d: "directionOf v = 1 \<or> directionOf v = - 1"
      by (simp add: directionOf_def f(6))
    have m: "changeMagnitude args v = \<bar>c\<bar> * (1.0 - currentProbability (triggerNode args)) * 0.5"
      by (simp add: changeMagnitude_def f(6) Let_def triggerNode_def)
    from d have pm: "predictedProbability n
            = max 0.01 (min 0.99 (currentProbability n + changeMagnitude args v)) \<or>
          predictedProbability n
            = max 0.01 (min 0.99 (currentProbability n - changeMagnitude args v))"
    proof
      assume "directionOf v = 1"
      with o(3) show ?thesis by simp
    next
      assume "directionOf v = - 1"
      with o(3) show ?thesis by simp
    qed
    show ?thesis
    proof (intro exI conjI)
      show "accepted env args cm l r v c" by (rule o(1))
      show "nodeId n = marketId r" by (rule o(2))
      show "hasHistoricalData v" by (rule f(8))
      show "changeMagnitude args v = \<bar>c\<bar> * (1.0 - currentProbability (triggerNode args)) * 0.5"
        by (rule m)
      show "predictedProbability n
            = max 0.01 (min 0.99 (currentProbability n + changeMagnitude args v)) \<or>
          predictedProbability n
            = max 0.01 (min 0.99 (currentProbability n - changeMagnitude args v))"
        by (rule pm)
    qed
    qed
  qed
  have b: "currentProbability (triggerNode args) = triggerPrice args"
    by (simp add: triggerNode_def)
  have c: "\<not> hasHistoricalData (downgraded candidate) \<and>
     changeMagnitude args (downgraded candidate) = (strength candidate * 0.5) * 0.10"
    by (simp add: downgraded_def changeMagnitude_def historical_def)
  show ?thesis
  proof (intro conjI ballI impI)
    fix n assume "n \<in> set (nodes (createSimulationScenario env args))" "layer n \<noteq> 0"
    then show "\<exists>cm l r v c. accepted env args cm l r v c \<and> nodeId n = marketId r \<and> hasHistoricalData v \<and>
         changeMagnitude args v = \<bar>c\<bar> * (1.0 - currentProbability (triggerNode args)) * 0.5 \<and>
         (predictedProbability n
            = max 0.01 (min 0.99 (currentProbability n + changeMagnitude args v)) \<or>
          predictedProbability n
            = max 0.01 (min 0.99 (currentProbability n - changeMagnitude args v)))"
      by (rule a)
  next
    show "currentProbability (triggerNode args) = triggerPrice args" by (rule b)
    show "\<not> hasHistoricalData (downgraded candidate)" using c by (rule conjunct1)
    show "changeMagnitude args (downgraded candidate) = (strength candidate * 0.5) * 0.10"
      using c by (rule conjunct2)
  qed
qed

theorem builder_magnitude_witness:
  "\<exists>cm l r v c. accepted demoEnv demoArgs cm l r v c \<and> nodeId demoNodeA = marketId r \<and>
         hasHistoricalData v \<and>
         changeMagnitude demoArgs v = \<bar>c\<bar> * (1.0 - currentProbability (triggerNode demoArgs)) * 0.5 \<and>
         (predictedProbability demoNodeA
            = max 0.01 (min 0.99 (currentProbability demoNodeA + changeMagnitude demoArgs v)) \<or>
          predictedProbability demoNodeA
            = max 0.01 (min 0.99 (currentProbability demoNodeA - changeMagnitude demoArgs v)))"
proof -
  have "layer demoNodeA \<noteq> 0" by (rule demo_graph_facts)
  with builder_magnitude [of demoEnv demoArgs, unfolded demo_run, THEN conjunct1, rule_format, OF demo_graph_facts(2)]
  show ?thesis .
qed

text \<open>
  The claim as stated fails for candidates without historical data: market \<open>b\<close> has no
  token and claimed strength 0.8; the fallback magnitude for its record is 0.04, not
  0.8 \<times> 0.10 = 0.08, and no node is built for it at all.
\<close>

theorem builder_magnitude_counterexample:
  "validateResult demoEnv demoArgs 1 1 {''t''} demoCandB = Some (downgraded demoCandB) \<and>
   \<not> hasHistoricalData (downgraded demoCandB) \<and>
   strength demoCandB * 0.10 = 2/25 \<and>
   changeMagnitude demoArgs (downgraded demoCandB) = 1/25 \<and>
   map nodeId (nodes (createSimulationScenario demoEnv demoArgs)) = [''t'', ''a'']"
  by (simp add: demo_validate_B demo_run)
     (simp add: downgraded_def changeMagnitude_def historical_def demoCandB_def demoGraph_def
        demoNodeT_def demoNodeA_def nodeId_def demo_ids)

end
